theory Spec2Isabelle
  imports Main "HOL-Library.Sublist" "HOL-Library.AList"
begin

chapter \<open>The trademark crawler of \<^verbatim>\<open>src/crawler.ts\<close>\<close>

text \<open>
  The development embeds the class \<^verbatim>\<open>PolishPatentCrawler\<close>: its date check, the form
  configuration, the classification of the search response, the pagination loop of the
  default handler, the field extraction of the detail handler and \<^verbatim>\<open>crawl\<close>, which ties
  them together around the run of the crawling library. The browser and the portal are the
  environment: they appear as data (the
  rendered document, the checkboxes of the form, the sequence of result pages) and as the
  list of commands the crawler issues.
\<close>

section \<open>JavaScript strings\<close>

text \<open>
  Text is a \<^typ>\<open>string\<close>, one \<^typ>\<open>char\<close> per code unit in the range 0 to 255
  (ASCII and Latin-1). The white space of \<^verbatim>\<open>trim\<close> and of the pattern \<^verbatim>\<open>\s\<close> is, in
  that range: tab, line feed, vertical tab, form feed, carriage return, space and the
  no-break space.
\<close>

definition is_space :: "char \<Rightarrow> bool" where
  "is_space c = (of_char c \<in> {9, 10, 11, 12, 13, 32, 160 :: nat})"

definition trim :: "string \<Rightarrow> string" where
  "trim s = rev (dropWhile is_space (rev (dropWhile is_space s)))"

text \<open>\<^verbatim>\<open>s.replace(/\s+/g, " ")\<close>: every maximal run of white space becomes one space.\<close>

function collapse :: "string \<Rightarrow> string" where
  "collapse [] = []"
| "collapse (c # cs) =
     (if is_space c then CHR '' '' # collapse (dropWhile is_space cs) else c # collapse cs)"
  by pat_completeness auto
termination
  by (relation "measure length") (auto simp: length_dropWhile_le less_Suc_eq_le)

text \<open>
  \<^verbatim>\<open>toLowerCase\<close> on the code units 0 to 255: the letters A to Z, and the Latin-1 capitals
  192 to 222 without the multiplication sign 215, move up by 32.
\<close>

definition toLowerChar :: "char \<Rightarrow> char" where
  "toLowerChar c =
     (let n = (of_char c :: nat)
      in if (65 \<le> n \<and> n \<le> 90) \<or> (192 \<le> n \<and> n \<le> 222 \<and> n \<noteq> 215)
         then char_of (n + 32) else c)"

definition toLowerCase :: "string \<Rightarrow> string" where
  "toLowerCase s = map toLowerChar s"

text \<open>\<^verbatim>\<open>s.includes(p)\<close>: \<open>p\<close> occurs in \<open>s\<close> as a contiguous piece.\<close>

primrec includes_s :: "string \<Rightarrow> string \<Rightarrow> bool" where
  "includes_s [] p = (p = [])"
| "includes_s (c # cs) p = (prefix p (c # cs) \<or> includes_s cs p)"

section \<open>The rendered document\<close>

text \<open>
  A node of the document is a piece of text or an element with its tag name (lower case),
  its class list and its children.
\<close>

datatype node = Text string | Element string "string list" "node list"

fun textContent :: "node \<Rightarrow> string" where
  "textContent (Text s) = s"
| "textContent (Element t cs ch) = concat (map textContent ch)"

definition hasTag :: "string \<Rightarrow> node \<Rightarrow> bool" where
  "hasTag t n = (case n of Text s \<Rightarrow> False | Element t' cs ch \<Rightarrow> t' = t)"

text \<open>\<^verbatim>\<open>classList.contains(c)\<close>, and the selector \<^verbatim>\<open>.c\<close>.\<close>

definition hasClass :: "string \<Rightarrow> node \<Rightarrow> bool" where
  "hasClass c n = (case n of Text s \<Rightarrow> False | Element t cs ch \<Rightarrow> c \<in> set cs)"

text \<open>The elements of a subtree in document order, the root first.\<close>

fun subtree :: "node \<Rightarrow> node list" where
  "subtree (Text s) = []"
| "subtree (Element t cs ch) = Element t cs ch # concat (map subtree ch)"

definition descendants :: "node \<Rightarrow> node list" where
  "descendants n = (case n of Text s \<Rightarrow> [] | Element t cs ch \<Rightarrow> concat (map subtree ch))"

text \<open>\<^verbatim>\<open>row.querySelectorAll("td")\<close>\<close>

definition querySelectorAll_td :: "node \<Rightarrow> node list" where
  "querySelectorAll_td row = filter (hasTag ''td'') (descendants row)"

text \<open>\<^verbatim>\<open>valueCell.querySelector(".highlight")\<close>: the first match, or null.\<close>

definition querySelector_highlight :: "node \<Rightarrow> node option" where
  "querySelector_highlight cell = find (hasClass ''highlight'') (descendants cell)"

text \<open>
  \<^verbatim>\<open>document.querySelectorAll("table.details-list tr")\<close>: every \<^verbatim>\<open>tr\<close> below a
  \<^verbatim>\<open>table\<close> of class \<^verbatim>\<open>details-list\<close>, in document order. The flag says whether such
  a table is among the ancestors.
\<close>

fun rowsWithin :: "bool \<Rightarrow> node \<Rightarrow> node list" where
  "rowsWithin inside (Text s) = []"
| "rowsWithin inside (Element t cs ch) =
     (if inside \<and> t = ''tr'' then [Element t cs ch] else []) @
     concat (map (rowsWithin (inside \<or> (t = ''table'' \<and> ''details-list'' \<in> set cs))) ch)"

definition querySelectorAll_rows :: "node \<Rightarrow> node list" where
  "querySelectorAll_rows document = rowsWithin False document"

section \<open>Field extraction: \<^verbatim>\<open>getDetailInformation\<close>\<close>

text \<open>
  The record under construction is a JavaScript object: an association list in insertion
  order, where assigning to a key that is present replaces its value in place
  (\<^const>\<open>AList.update\<close>). A value is a string, or \<^verbatim>\<open>null\<close> (\<^const>\<open>None\<close>).
\<close>

type_synonym trademark_data = "(string \<times> string option) list"

definition fieldMappings :: "(string \<times> string) list" where
  "fieldMappings =
     [(''Name/Title'', ''nameTitle''),
      (''Status'', ''status''),
      (''Application date'', ''applicationDate''),
      (''Revelation date'', ''revelationDate''),
      (''Application number'', ''applicationNumber''),
      (''Category of rights'', ''categoryOfRights''),
      (''Registration number'', ''registrationNumber''),
      (''Trademark type'', ''trademarkType'')]"

text \<open>\<^verbatim>\<open>labelCell.textContent?.trim().replace(/\s+/g, " ") || ""\<close>\<close>

definition labelText :: "node \<Rightarrow> string" where
  "labelText labelCell = collapse (trim (textContent labelCell))"

text \<open>
  \<^verbatim>\<open>Object.entries(fieldMappings).find(([label]) => labelText.includes(label))?.[1]\<close>:
  the entries come in the order the table is written; \<^verbatim>\<open>undefined\<close> is \<^const>\<open>None\<close>.
\<close>

definition fieldName :: "string \<Rightarrow> string option" where
  "fieldName text = map_option snd (find (\<lambda>entry. includes_s text (fst entry)) fieldMappings)"

text \<open>A string or \<^verbatim>\<open>undefined\<close> is falsy when it is \<^verbatim>\<open>undefined\<close> or empty.\<close>

definition falsy :: "string option \<Rightarrow> bool" where
  "falsy v = (v = None \<or> v = Some [])"

text \<open>
  Lines 172 to 179: the text of the highlighted span, trimmed; when that is falsy, the
  text of the whole cell, trimmed and collapsed; and \<^verbatim>\<open>value || null\<close> at the end.
\<close>

definition resolveValue :: "node \<Rightarrow> string option" where
  "resolveValue valueCell =
     (let highlightSpan = querySelector_highlight valueCell;
          value = map_option (\<lambda>span. trim (textContent span)) highlightSpan;
          value' = (if falsy value then Some (collapse (trim (textContent valueCell))) else value)
      in if falsy value' then None else value')"

text \<open>Lines 164 to 180: what one label cell and the cell after it add to the record.\<close>

definition extractPair :: "node \<Rightarrow> node \<Rightarrow> trademark_data \<Rightarrow> trademark_data" where
  "extractPair labelCell valueCell result =
     (case fieldName (labelText labelCell) of
        None \<Rightarrow> result
      | Some name \<Rightarrow> AList.update name (resolveValue valueCell) result)"

text \<open>
  The loop \<^verbatim>\<open>for (let i = 0; i < cells.length; i += 2)\<close> from index \<open>i\<close> on.
  \<^verbatim>\<open>cells[i + 1]\<close> is \<^verbatim>\<open>undefined\<close> past the end of the list.
\<close>

function scanCells :: "node list \<Rightarrow> nat \<Rightarrow> trademark_data \<Rightarrow> trademark_data" where
  "scanCells cells i result =
     (if i < length cells then
        scanCells cells (i + 2)
          (let labelCell = cells ! i;
               valueCell = (if i + 1 < length cells then Some (cells ! (i + 1)) else None)
           in if hasClass ''detail-title'' labelCell \<and> valueCell \<noteq> None
              then extractPair labelCell (the valueCell) result
              else result)
      else result)"
  by pat_completeness auto
termination
  by (relation "measure (\<lambda>(cells, i, result). length cells - i)") auto

declare scanCells.simps [simp del]

definition getDetailInformation :: "node \<Rightarrow> trademark_data" where
  "getDetailInformation document =
     foldl (\<lambda>result row. scanCells (querySelectorAll_td row) 0 result) []
       (querySelectorAll_rows document)"

section \<open>Run configuration, failures and the date check\<close>

record CrawlerOptions =
  startDate :: string
  endDate :: string
  outputFile :: "string option"

text \<open>What the code throws, each with its message.\<close>

datatype error =
    Error string
  | NonRetryableError string
  | TimeoutError string
  | TypeError string

text \<open>
  A \<^verbatim>\<open>Date\<close> is its time value in milliseconds, or \<^const>\<open>None\<close> for an invalid date
  (time value \<^verbatim>\<open>NaN\<close>). The parser of the date library is not part of the repository:
  it is a parameter, called as \<^verbatim>\<open>parse(dateStr, formatStr, referenceDate)\<close>. Every
  \<^verbatim>\<open>new Date()\<close> reads the clock; \<open>now k\<close> is the reading of the \<open>k\<close>-th call.
\<close>

type_synonym date = "int option"

type_synonym date_parser = "string \<Rightarrow> string \<Rightarrow> int \<Rightarrow> date"

definition isValidDate :: "date_parser \<Rightarrow> int \<Rightarrow> string \<Rightarrow> bool" where
  "isValidDate parse reference dateStr = (parse dateStr ''yyyy-MM-dd'' reference \<noteq> None)"

text \<open>\<^verbatim>\<open>a > b\<close> on dates compares the time values; with \<^verbatim>\<open>NaN\<close> on a side it is false.\<close>

definition date_gt :: "date \<Rightarrow> date \<Rightarrow> bool" where
  "date_gt a b = (case (a, b) of (Some x, Some y) \<Rightarrow> x > y | _ \<Rightarrow> False)"

definition checkDateRange :: "date_parser \<Rightarrow> (nat \<Rightarrow> int) \<Rightarrow> CrawlerOptions \<Rightarrow> error + unit" where
  "checkDateRange parse now options =
     (if \<not> isValidDate parse (now 0) (startDate options) \<or>
         \<not> isValidDate parse (now 1) (endDate options)
      then Inl (Error ''Invalid date format. Use YYYY-MM-DD.'')
      else
        let parsedStart = parse (startDate options) ''yyyy-MM-dd'' (now 2);
            parsedEnd = parse (endDate options) ''yyyy-MM-dd'' (now 3)
        in if date_gt parsedStart parsedEnd
           then Inl (Error ''Start date must be before or equal to end date.'')
           else Inr ())"

text \<open>
  The test of \<^verbatim>\<open>parseArgs\<close> on a date of the command line,
  \<^verbatim>\<open>/^\d{4}-\d{2}-\d{2}$/.test(s)\<close>: four digits, a hyphen, two digits, a hyphen, two
  digits, and nothing before or after.
\<close>

definition isDigit :: "char \<Rightarrow> bool" where
  "isDigit c = (48 \<le> (of_char c :: nat) \<and> (of_char c :: nat) \<le> 57)"

definition dateRegex_test :: "string \<Rightarrow> bool" where
  "dateRegex_test s =
     (length s = 10 \<and> (\<forall>i \<in> set [0, 1, 2, 3, 5, 6, 8, 9]. isDigit (s ! i)) \<and>
      s ! 4 = CHR ''-'' \<and> s ! 7 = CHR ''-'')"

section \<open>The browser session and the state of the run\<close>

text \<open>
  What \<^verbatim>\<open>checkbox.evaluateHandle(...)\<close> resolves to: a handle of the box element when
  the function finds it, and a handle of \<^verbatim>\<open>undefined\<close> when it does not. Both are
  objects, and an object is truthy, so the guard \<^verbatim>\<open>if (box)\<close> holds for both. A
  handle of an element has the method \<^verbatim>\<open>click\<close>; a handle of \<^verbatim>\<open>undefined\<close>
  has not, and calling it throws a \<^verbatim>\<open>TypeError\<close>.
\<close>

datatype handle = ElementHandle | JSHandle

definition truthy :: "handle \<Rightarrow> bool" where
  "truthy box = (case box of ElementHandle \<Rightarrow> True | JSHandle \<Rightarrow> True)"

text \<open>
  A checkbox of the form: its \<^verbatim>\<open>id\<close> attribute (\<^verbatim>\<open>null\<close> when absent), whether it is
  checked, and whether its proxy, the element \<^verbatim>\<open>.ui-chkbox-box\<close> under the closest
  \<^verbatim>\<open>.ui-chkbox\<close>, is in the page.
\<close>

record checkbox =
  cb_id :: "string option"
  cb_checked :: bool
  cb_proxy :: bool

definition evaluateHandle :: "checkbox \<Rightarrow> handle" where
  "evaluateHandle checkbox = (if cb_proxy checkbox then ElementHandle else JSHandle)"

text \<open>
  A result page: the targets of the anchors under \<^verbatim>\<open>table tbody tr td a\<close>, and the
  control \<^verbatim>\<open>a.ui-paginator-next\<close>: absent, or present with the flag of the class
  \<^verbatim>\<open>ui-state-disabled\<close>.
\<close>

record results_page =
  row_links :: "string list"
  next_control :: "bool option"

text \<open>The commands sent to the browser, in the order they are sent.\<close>

datatype action =
    WaitForLoadState string
  | WaitForSelector string nat
  | Click string
  | ClickBox nat
  | Press string
  | TypeText string string
  | WaitForTimeout nat
  | Submit
  | WaitForFunction
  | EnqueueLinks nat
  | ClickNext

text \<open>
  The lines the code logs, one constructor for each logging statement with the values it
  interpolates: line 99 (console), 192 (console), 198 (info), 213 (info), 217 (info),
  224 (info), 235 (console), 237 (warning), 240 (error), 251 (console error), 257
  (console) and 263 (console).
\<close>

datatype log_entry =
    PerformingSearch string string
  | StartingCrawler
  | FillingOutSearchForm
  | NavigatingToNextPage
  | NoMorePages
  | ProcessingDetail string
  | ExtractedData string trademark_data
  | NoDataExtracted string
  | FailedToProcess string error
  | RequestFailed string error
  | CrawlingCompleted nat
  | ResultsSaved string

text \<open>
  One record holds the fields of the crawler object (\<open>results\<close>, \<open>formFilled\<close>), what
  the run leaves behind (\<open>log\<close>, \<open>queue\<close>, \<open>written\<close>, \<open>actions\<close>)
  and the browser with the portal behind it: the checkboxes of the form, the keyboard
  focus, whether the focused input is selected as a whole, the value of every input, the
  response to the search, the result pages in the order the next control brings them up
  with the index of the one on screen, and for every detail address either the failure
  of a readiness wait or the rendered document.
\<close>

record world =
  results :: "trademark_data list"
  formFilled :: bool
  log :: "log_entry list"
  queue :: "string list"
  written :: "(string \<times> trademark_data list) option"
  actions :: "action list"
  checkboxes :: "checkbox list"
  focus :: "string option"
  selection :: bool
  inputs :: "string \<Rightarrow> string"
  search_table :: bool
  tabs_info_message :: "string option"
  pages :: "nat \<Rightarrow> results_page"
  current :: nat
  detail_pages :: "string \<Rightarrow> error + node"

text \<open>
  A step either completes or throws, and leaves the world as it is at that moment.
  \<open>sequence\<close> is a block of awaited statements: it stops at the first that throws.
\<close>

type_synonym step = "world \<Rightarrow> (error + unit) \<times> world"

definition ok :: "(world \<Rightarrow> world) \<Rightarrow> step" where
  "ok f w = (Inr (), f w)"

definition throw :: "error \<Rightarrow> step" where
  "throw e w = (Inl e, w)"

primrec sequence :: "step list \<Rightarrow> step" where
  "sequence [] w = (Inr (), w)"
| "sequence (p # ps) w =
     (case p w of (Inl e, w') \<Rightarrow> (Inl e, w') | (Inr u, w') \<Rightarrow> sequence ps w')"

definition act :: "action \<Rightarrow> world \<Rightarrow> world" where
  "act a w = w\<lparr>actions := actions w @ [a]\<rparr>"

definition logEntry :: "log_entry \<Rightarrow> world \<Rightarrow> world" where
  "logEntry e w = w\<lparr>log := log w @ [e]\<rparr>"

section \<open>Form configuration\<close>

definition targetCheckboxes :: "string list" where
  "targetCheckboxes =
     [''pwp_criteria_0'',
      ''collections_criteria_advanced_7'',
      ''collections_criteria_advanced_7_child_attrs_0'']"

text \<open>A click on the box of the \<open>k\<close>-th checkbox toggles that checkbox.\<close>

definition clickBox :: "nat \<Rightarrow> world \<Rightarrow> world" where
  "clickBox k w =
     act (ClickBox k)
       (w\<lparr>checkboxes :=
            (checkboxes w)[k := (checkboxes w ! k)\<lparr>cb_checked := \<not> cb_checked (checkboxes w ! k)\<rparr>]\<rparr>)"

text \<open>
  The body of the loop of \<^verbatim>\<open>configureCheckboxes\<close> for the \<open>k\<close>-th checkbox of the
  list that \<^verbatim>\<open>page.$$\<close> returned. \<^verbatim>\<open>!id\<close> holds for a missing and for an empty
  \<^verbatim>\<open>id\<close> attribute.
\<close>

definition configureCheckbox :: "nat \<Rightarrow> step" where
  "configureCheckbox k w =
     (let checkbox = checkboxes w ! k; id = cb_id checkbox
      in if falsy id then (Inr (), w)
         else
           let isChecked = cb_checked checkbox;
               shouldBeChecked = (the id \<in> set targetCheckboxes)
           in if isChecked \<noteq> shouldBeChecked
              then
                let box = evaluateHandle checkbox
                in if truthy box
                   then (case box of
                           ElementHandle \<Rightarrow>
                             sequence [ok (clickBox k), ok (act (WaitForTimeout 100))] w
                         | JSHandle \<Rightarrow> throw (TypeError ''box.click is not a function'') w)
                   else (Inr (), w)
              else (Inr (), w))"

definition configureCheckboxes :: step where
  "configureCheckboxes w = sequence (map configureCheckbox [0..<length (checkboxes w)]) w"

text \<open>
  The keyboard, as far as \<^verbatim>\<open>inputDateValue\<close> uses it: a click gives the focus to the
  input, Control+A selects its whole value, Backspace deletes the selection (or the last
  character), and a typed character replaces the selection or is appended.
\<close>

definition click :: "string \<Rightarrow> world \<Rightarrow> world" where
  "click selector w = act (Click selector) (w\<lparr>focus := Some selector, selection := False\<rparr>)"

definition press :: "string \<Rightarrow> world \<Rightarrow> world" where
  "press key w =
     act (Press key)
       (case focus w of
          None \<Rightarrow> w
        | Some selector \<Rightarrow>
            if key = ''Control+A'' then w\<lparr>selection := True\<rparr>
            else if key = ''Backspace'' then
              w\<lparr>inputs := (inputs w)(selector :=
                     (if selection w then [] else butlast (inputs w selector))),
                 selection := False\<rparr>
            else w)"

definition typeChar :: "string \<Rightarrow> world \<Rightarrow> char \<Rightarrow> world" where
  "typeChar selector w c =
     w\<lparr>inputs := (inputs w)(selector :=
            (if selection w then [c] else inputs w selector @ [c])),
       selection := False\<rparr>"

definition typeText :: "string \<Rightarrow> string \<Rightarrow> world \<Rightarrow> world" where
  "typeText selector text w =
     act (TypeText selector text)
       (foldl (typeChar selector)
          (w\<lparr>focus := Some selector,
             selection := (selection w \<and> focus w = Some selector)\<rparr>) text)"

definition inputDateValue :: "string \<Rightarrow> string \<Rightarrow> step" where
  "inputDateValue selector val =
     sequence
       [ok (click selector),
        ok (press ''Control+A''),
        ok (press ''Backspace''),
        ok (typeText selector val),
        ok (act (WaitForTimeout 300))]"

section \<open>Search: \<^verbatim>\<open>executeSearch\<close>\<close>

text \<open>
  The waits for the load state, for the container of the form and for the navigation,
  and the clicks and key presses on the inputs, are taken to complete: each is recorded
  as a command. \<^verbatim>\<open>page.waitForFunction\<close> returns once the result table or the
  message is in the document, and runs into its time limit when neither comes.
\<close>

definition waitForFunction :: step where
  "waitForFunction w =
     (if search_table w \<or> tabs_info_message w \<noteq> None
      then (Inr (), act WaitForFunction w)
      else (Inl (TimeoutError ''page.waitForFunction: Timeout exceeded''), act WaitForFunction w))"

text \<open>
  Lines 123 to 127: the text of the message, in lower case and trimmed, or \<^verbatim>\<open>null\<close>
  when \<^verbatim>\<open>$eval\<close> finds no message and its failure is caught.
\<close>

definition errorText :: "world \<Rightarrow> string option" where
  "errorText w = map_option (\<lambda>message. trim (toLowerCase message)) (tabs_info_message w)"

text \<open>\<^verbatim>\<open>errorText?.includes(p)\<close> as a condition.\<close>

definition includes_opt :: "string option \<Rightarrow> string \<Rightarrow> bool" where
  "includes_opt t p = (case t of None \<Rightarrow> False | Some s \<Rightarrow> includes_s s p)"

text \<open>Lines 129 to 137.\<close>

definition checkResult :: step where
  "checkResult w =
     (if includes_opt (errorText w) ''no results found''
      then throw (NonRetryableError ''No results found for the given criteria'') w
      else if includes_opt (errorText w) ''too many results found''
      then throw (NonRetryableError ''Too many results found. Please narrow your search criteria'') w
      else (Inr (), w))"

definition executeSearch :: "CrawlerOptions \<Rightarrow> step" where
  "executeSearch options =
     sequence
       [ok (logEntry (PerformingSearch (startDate options) (endDate options))),
        ok (act (WaitForLoadState ''networkidle'')),
        ok (act (WaitForSelector ''.search-attr-container'' 20000)),
        configureCheckboxes,
        inputDateValue ''#attribute_date_from'' (endDate options),
        inputDateValue ''#attribute_date_to'' (startDate options),
        ok (act Submit),
        waitForFunction,
        checkResult]"

section \<open>The handlers of \<^verbatim>\<open>crawl\<close>\<close>

definition baseUrl :: string where
  "baseUrl = ''https://ewyszukiwarka.pue.uprp.gov.pl/search/advanced-search''"

text \<open>
  \<^verbatim>\<open>enqueueLinks\<close> with the label \<^verbatim>\<open>detail\<close>: the row links of the page on screen
  join the queue.
\<close>

definition enqueueLinks :: "world \<Rightarrow> world" where
  "enqueueLinks w =
     act (EnqueueLinks (current w)) (w\<lparr>queue := queue w @ row_links (pages w (current w))\<rparr>)"

text \<open>\<^verbatim>\<open>page.$("a.ui-paginator-next:not(.ui-state-disabled)")\<close> finds an element.\<close>

definition nextButton :: "world \<Rightarrow> bool" where
  "nextButton w = (next_control (pages w (current w)) = Some False)"

definition clickNext :: "world \<Rightarrow> world" where
  "clickNext w = act ClickNext (w\<lparr>current := current w + 1\<rparr>)"

text \<open>
  The loop \<^verbatim>\<open>do { ... } while (hasNextPage)\<close> of the default handler. It may run for
  ever: not returning is the value \<^const>\<open>None\<close>.
\<close>

partial_function (option) paginate :: "world \<Rightarrow> world option" where
  "paginate w =
     (let w1 = enqueueLinks w
      in if nextButton w1
         then paginate
                (act (WaitForTimeout 1500)
                   (clickNext (logEntry (NavigatingToNextPage) w1)))
         else Some (logEntry (NoMorePages) w1))"

definition defaultHandler ::
  "CrawlerOptions \<Rightarrow> string \<Rightarrow> world \<Rightarrow> ((error + unit) \<times> world) option" where
  "defaultHandler options url w =
     (case (if includes_s url ''/search/advanced-search'' \<and> \<not> formFilled w
            then sequence
                   [ok (logEntry (FillingOutSearchForm)),
                    executeSearch options,
                    ok (\<lambda>w. w\<lparr>formFilled := True\<rparr>)] w
            else (Inr (), w)) of
        (Inl e, w') \<Rightarrow> Some (Inl e, w')
      | (Inr u, w') \<Rightarrow> map_option (Pair (Inr ())) (paginate w'))"

text \<open>
  The detail handler. Its \<^verbatim>\<open>try\<close> block catches whatever the waits throw, so the
  handler itself never throws. \<^verbatim>\<open>Object.keys(data).length\<close> is the number of keys of the
  record.
\<close>

definition detailHandler :: "string \<Rightarrow> world \<Rightarrow> world" where
  "detailHandler url w =
     (let w1 = logEntry (ProcessingDetail url) w
      in case detail_pages w1 url of
           Inl error \<Rightarrow>
             logEntry (FailedToProcess url error) (act (WaitForLoadState ''networkidle'') w1)
         | Inr document \<Rightarrow>
             let w2 = act (WaitForTimeout 1000)
                        (act (WaitForSelector ''section.panel'' 15000)
                           (act (WaitForLoadState ''networkidle'') w1));
                 data = getDetailInformation document
             in if length (map fst data) \<noteq> 0
                then logEntry (ExtractedData url data) (w2\<lparr>results := results w2 @ [data]\<rparr>)
                else logEntry (NoDataExtracted url) w2)"

section \<open>The run\<close>

text \<open>The options handed to the crawler of the library (lines 244 to 253).\<close>

record crawler_config =
  headless :: bool
  navigationTimeoutSecs :: nat
  requestHandlerTimeoutSecs :: nat
  maxRequestsPerCrawl :: nat

definition crawlerConfig :: crawler_config where
  "crawlerConfig =
     \<lparr>headless = False, navigationTimeoutSecs = 60, requestHandlerTimeoutSecs = 180,
      maxRequestsPerCrawl = 1000\<rparr>"

text \<open>\<^verbatim>\<open>failedRequestHandler\<close>\<close>

definition failedRequestHandler :: "string \<Rightarrow> error \<Rightarrow> world \<Rightarrow> world" where
  "failedRequestHandler url error w = logEntry (RequestFailed url error) w"

text \<open>
  \<^verbatim>\<open>crawler.run\<close> belongs to the crawling library, which is not part of the repository:
  its queue, its retries, its time limits and its ceiling on the number of jobs are not
  embedded. It is a parameter: it gets the options, the default handler, the detail
  handler, the handler of failed requests and the start address, and a run that does not
  end is the value \<^const>\<open>None\<close>.
\<close>

type_synonym crawler_run =
  "crawler_config \<Rightarrow> (string \<Rightarrow> world \<Rightarrow> ((error + unit) \<times> world) option) \<Rightarrow>
   (string \<Rightarrow> world \<Rightarrow> world) \<Rightarrow> (string \<Rightarrow> error \<Rightarrow> world \<Rightarrow> world) \<Rightarrow>
   string \<Rightarrow> world \<Rightarrow> world option"

text \<open>
  \<^verbatim>\<open>crawl\<close>: the date check, the run, and the results written to the output file
  (\<^verbatim>\<open>this.options.outputFile || "output.json"\<close>). The file is named as the options name
  it; the working directory, against which \<^verbatim>\<open>path.resolve\<close> resolves the name, is left
  out.
\<close>

definition crawl ::
  "crawler_run \<Rightarrow> date_parser \<Rightarrow> (nat \<Rightarrow> int) \<Rightarrow> CrawlerOptions \<Rightarrow> world \<Rightarrow>
     ((error + trademark_data list) \<times> world) option" where
  "crawl run parse now options w =
     (case checkDateRange parse now options of
        Inl e \<Rightarrow> Some (Inl e, w)
      | Inr u \<Rightarrow>
          (case run crawlerConfig (defaultHandler options) detailHandler failedRequestHandler
                  baseUrl (logEntry StartingCrawler w) of
             None \<Rightarrow> None
           | Some w1 \<Rightarrow>
               let outputFile = (if falsy (outputFile options) then ''output.json''
                                 else the (outputFile options))
               in Some (Inr (results w1),
                        logEntry (ResultsSaved outputFile)
                          (logEntry (CrawlingCompleted (length (results w1))) w1)
                            \<lparr>written := Some (outputFile, results w1)\<rparr>)))"

section \<open>Notions used in the statements\<close>

text \<open>The field names of the interface \<^verbatim>\<open>TrademarkData\<close> (lines 11 to 20).\<close>

definition TrademarkData :: "string list" where
  "TrademarkData =
     [''nameTitle'', ''status'', ''applicationDate'', ''revelationDate'',
      ''applicationNumber'', ''categoryOfRights'', ''registrationNumber'', ''trademarkType'']"

text \<open>
  The cell at offset \<open>j\<close> of a row is a label cell with a cell after it, and its text
  resolves to the field \<open>f\<close>.
\<close>

definition contributes :: "node list \<Rightarrow> nat \<Rightarrow> string \<Rightarrow> bool" where
  "contributes cells j f \<longleftrightarrow>
     j + 1 < length cells \<and> hasClass ''detail-title'' (cells ! j) \<and>
     fieldName (labelText (cells ! j)) = Some f"

text \<open>An entry of a record: a key of the interface with \<^verbatim>\<open>null\<close> or a non-empty string.\<close>

definition wellFormedEntry :: "string \<times> string option \<Rightarrow> bool" where
  "wellFormedEntry e \<longleftrightarrow>
     fst e \<in> set TrademarkData \<and> (case snd e of None \<Rightarrow> True | Some s \<Rightarrow> s \<noteq> [])"


text \<open>
  White-space-collapsed text as the specification words it: the words of the text, that
  is its maximal runs of characters that are not white space, with one space between two
  words and nothing before the first and after the last.
\<close>

function splitWords :: "string \<Rightarrow> string list" where
  "splitWords s =
     (let t = dropWhile is_space s
      in if t = [] then []
         else takeWhile (\<lambda>c. \<not> is_space c) t #
              splitWords (dropWhile (\<lambda>c. \<not> is_space c) t))"
  by pat_completeness auto
termination
proof (relation "measure length")
  show "wf (measure length)" by simp
next
  fix s t :: string
  assume t: "t = dropWhile is_space s" and ne: "t \<noteq> []"
  from ne obtain x xs where c: "t = x # xs" by (cases t) auto
  from ne have "\<not> is_space (hd t)" unfolding t by (rule hd_dropWhile)
  with c have "\<not> is_space x" by simp
  with c have "length (dropWhile (\<lambda>c. \<not> is_space c) t) \<le> length xs"
    by (simp add: length_dropWhile_le)
  moreover have "length t \<le> length s" unfolding t by (rule length_dropWhile_le)
  ultimately show "(dropWhile (\<lambda>c. \<not> is_space c) t, s) \<in> measure length"
    using c by simp
qed

declare splitWords.simps [simp del]

fun joinWords :: "string list \<Rightarrow> string" where
  "joinWords [] = []"
| "joinWords [w] = w"
| "joinWords (w # v # ws) = w @ CHR '' '' # joinWords (v # ws)"

text \<open>The populated fields of a record: those whose value is not \<^verbatim>\<open>null\<close>.\<close>

definition populated :: "trademark_data \<Rightarrow> trademark_data" where
  "populated data = filter (\<lambda>entry. snd entry \<noteq> None) data"

text \<open>
  Checkboxes. The target of a checkbox with an identifier; whether the loop clicks it (it
  has an identifier and its state differs from the target); whether the loop fails on it
  (it would be clicked, and its proxy is not in the page); and the checkbox as a click
  leaves it.
\<close>

definition shouldBeChecked :: "checkbox \<Rightarrow> bool" where
  "shouldBeChecked c = (the (cb_id c) \<in> set targetCheckboxes)"

definition toggled :: "checkbox \<Rightarrow> bool" where
  "toggled c \<longleftrightarrow> \<not> falsy (cb_id c) \<and> cb_checked c \<noteq> shouldBeChecked c"

definition stuck :: "checkbox \<Rightarrow> bool" where
  "stuck c \<longleftrightarrow> toggled c \<and> \<not> cb_proxy c"

definition configured :: "checkbox \<Rightarrow> checkbox" where
  "configured c = (if toggled c then c\<lparr>cb_checked := \<not> cb_checked c\<rparr> else c)"

text \<open>The commands the loop sends for the checkboxes from position \<open>i\<close> on.\<close>

definition boxClicks :: "checkbox list \<Rightarrow> nat \<Rightarrow> action list" where
  "boxClicks cbs i =
     concat (map (\<lambda>k. if toggled (cbs ! k) then [ClickBox k, WaitForTimeout 100] else [])
               [i..<length cbs])"

text \<open>
  The target state as the specification words it: a checkbox is checked exactly when its
  identifier is in the allow-list.
\<close>

definition allowListReached :: "checkbox list \<Rightarrow> bool" where
  "allowListReached cbs \<longleftrightarrow>
     (\<forall>c \<in> set cbs.
        cb_checked c \<longleftrightarrow> (case cb_id c of None \<Rightarrow> False | Some ident \<Rightarrow> ident \<in> set targetCheckboxes))"

text \<open>The commands of the two calls of \<^verbatim>\<open>inputDateValue\<close> in \<^verbatim>\<open>executeSearch\<close>.\<close>

definition isTypeText :: "action \<Rightarrow> bool" where
  "isTypeText a = (case a of TypeText selector val \<Rightarrow> True | _ \<Rightarrow> False)"

definition dateActions :: "CrawlerOptions \<Rightarrow> action list" where
  "dateActions options =
     [Click ''#attribute_date_from'', Press ''Control+A'', Press ''Backspace'',
      TypeText ''#attribute_date_from'' (endDate options), WaitForTimeout 300,
      Click ''#attribute_date_to'', Press ''Control+A'', Press ''Backspace'',
      TypeText ''#attribute_date_to'' (startDate options), WaitForTimeout 300]"

text \<open>
  The world after \<^verbatim>\<open>executeSearch\<close> when no click fails, and the outcome of the search
  as a function of the response of the portal.
\<close>

definition searchedWorld :: "CrawlerOptions \<Rightarrow> world \<Rightarrow> world" where
  "searchedWorld options w =
     w\<lparr>log := log w @ [PerformingSearch (startDate options) (endDate options)],
       checkboxes := map configured (checkboxes w),
       focus := Some ''#attribute_date_to'',
       selection := False,
       inputs := (inputs w)(''#attribute_date_from'' := endDate options,
                            ''#attribute_date_to'' := startDate options),
       actions := actions w @
         [WaitForLoadState ''networkidle'', WaitForSelector ''.search-attr-container'' 20000] @
         boxClicks (checkboxes w) 0 @ dateActions options @ [Submit, WaitForFunction]\<rparr>"

definition searchOutcome :: "world \<Rightarrow> error + unit" where
  "searchOutcome w =
     (case tabs_info_message w of
        Some message \<Rightarrow>
          if includes_s (trim (toLowerCase message)) ''no results found''
          then Inl (NonRetryableError ''No results found for the given criteria'')
          else if includes_s (trim (toLowerCase message)) ''too many results found''
          then Inl (NonRetryableError ''Too many results found. Please narrow your search criteria'')
          else Inr ()
      | None \<Rightarrow>
          if search_table w then Inr ()
          else Inl (TimeoutError ''page.waitForFunction: Timeout exceeded''))"


text \<open>
  Pagination. The links of the pages \<open>c\<close> to \<open>c + n\<close>, and the commands of a walk over
  them: every page is enqueued, and between two pages the next control is clicked and
  the fixed pause of 1500 ms follows. \<open>turnedPage\<close> is the world after one round of the
  loop that clicks, \<open>pagedWorld\<close> the world in which the loop stops after \<open>n\<close> clicks.
\<close>

primrec linksFrom :: "(nat \<Rightarrow> results_page) \<Rightarrow> nat \<Rightarrow> nat \<Rightarrow> string list" where
  "linksFrom ps c 0 = row_links (ps c)"
| "linksFrom ps c (Suc n) = row_links (ps c) @ linksFrom ps (Suc c) n"

primrec walkFrom :: "nat \<Rightarrow> nat \<Rightarrow> action list" where
  "walkFrom c 0 = [EnqueueLinks c]"
| "walkFrom c (Suc n) = [EnqueueLinks c, ClickNext, WaitForTimeout 1500] @ walkFrom (Suc c) n"

definition pagedWorld :: "world \<Rightarrow> nat \<Rightarrow> world" where
  "pagedWorld w n =
     w\<lparr>log := log w @ replicate n (NavigatingToNextPage) @
                [NoMorePages],
       queue := queue w @ linksFrom (pages w) (current w) n,
       actions := actions w @ walkFrom (current w) n,
       current := current w + n\<rparr>"

definition turnedPage :: "world \<Rightarrow> world" where
  "turnedPage w =
     w\<lparr>log := log w @ [NavigatingToNextPage],
       queue := queue w @ row_links (pages w (current w)),
       actions := actions w @ [EnqueueLinks (current w), ClickNext, WaitForTimeout 1500],
       current := current w + 1\<rparr>"

text \<open>The detail handler on a list of jobs, one after the other.\<close>

definition detailJobs :: "string list \<Rightarrow> world \<Rightarrow> world" where
  "detailJobs urls w = foldl (\<lambda>w url. detailHandler url w) w urls"

text \<open>What the detail handler appends to the results for one address.\<close>

definition extractedFrom :: "(string \<Rightarrow> error + node) \<Rightarrow> string \<Rightarrow> trademark_data list" where
  "extractedFrom dp url =
     (case dp url of
        Inl e \<Rightarrow> []
      | Inr document \<Rightarrow>
          if getDetailInformation document = [] then [] else [getDetailInformation document])"

section \<open>Sample inputs\<close>

text \<open>
  A detail page with two rows. The first row has a label with white space around it and
  a value cell with a highlighted span inside other text. The second row has a label
  that contains two phrases of the table, a value cell of white space only, and a third
  cell, a label with no cell after it.
\<close>

definition sample_label :: node where
  "sample_label = Element ''td'' [''detail-title''] [Text ''Status of  Application date'']"

definition sample_value :: node where
  "sample_value =
     Element ''td'' []
       [Text ''prefix '', Element ''span'' [''highlight''] [Text '' X ''], Text '' suffix'']"

definition sample_detail :: node where
  "sample_detail =
     Element ''html'' []
       [Element ''table'' [''details-list'']
          [Element ''tr'' []
             [Element ''td'' [''detail-title''] [Text ''  Name/Title ''], sample_value],
           Element ''tr'' []
             [sample_label,
              Element ''td'' [] [Text ''   ''],
              Element ''td'' [''detail-title''] [Text ''Trademark type'']]]]"


text \<open>
  A run over three result pages, of which the first two have an enabled next control, with
  a form of five checkboxes (the fourth has no identifier) and four
  detail addresses: one renders the sample page, one renders a page without a detail
  table, and the others time out.
\<close>

definition sample_options :: CrawlerOptions where
  "sample_options = \<lparr>startDate = ''2024-01-01'', endDate = ''2024-12-31'', outputFile = None\<rparr>"

definition sample_pages :: "nat \<Rightarrow> results_page" where
  "sample_pages k =
     (if k = 0 then \<lparr>row_links = [''/detail/1'', ''/detail/2''], next_control = Some False\<rparr>
      else if k = 1 then \<lparr>row_links = [''/detail/3''], next_control = Some False\<rparr>
      else \<lparr>row_links = [''/detail/4''], next_control = Some True\<rparr>)"

definition sample_world :: world where
  "sample_world =
     \<lparr>results = [], formFilled = False, log = [], queue = [], written = None,
      actions = [],
      checkboxes =
        [\<lparr>cb_id = Some ''pwp_criteria_0'', cb_checked = False, cb_proxy = True\<rparr>,
         \<lparr>cb_id = Some ''collections_criteria_advanced_3'', cb_checked = True, cb_proxy = True\<rparr>,
         \<lparr>cb_id = Some ''collections_criteria_advanced_7'', cb_checked = True, cb_proxy = True\<rparr>,
         \<lparr>cb_id = None, cb_checked = True, cb_proxy = True\<rparr>,
         \<lparr>cb_id = Some ''collections_criteria_advanced_7_child_attrs_0'', cb_checked = False,
          cb_proxy = True\<rparr>],
      focus = None, selection = False, inputs = (\<lambda>selector. ''2000-01-01''),
      search_table = True, tabs_info_message = None,
      pages = sample_pages, current = 0,
      detail_pages = (\<lambda>url. if url = ''/detail/1'' then Inr sample_detail
                              else if url = ''/detail/2'' then Inr (Element ''html'' [] [])
                              else Inl (TimeoutError ''page.waitForSelector: Timeout exceeded''))\<rparr>"


text \<open>
  A date parser that knows three strings (their time values are those of midnight UTC)
  and rejects every other string, whatever the reference date. As the parser of the date
  library does for the pattern \<^verbatim>\<open>yyyy-MM-dd\<close>, it reads a month and a day of one digit.
\<close>

definition sample_parse :: date_parser where
  "sample_parse dateStr formatStr reference =
     (if formatStr = ''yyyy-MM-dd'' \<and> dateStr = ''2024-01-01'' then Some 1704067200000
      else if formatStr = ''yyyy-MM-dd'' \<and> dateStr = ''2024-1-5'' then Some 1704412800000
      else if formatStr = ''yyyy-MM-dd'' \<and> dateStr = ''2024-12-31'' then Some 1735603200000
      else None)"

text \<open>A detail page whose only label is matched and whose value cell is empty.\<close>

definition blank_detail :: node where
  "blank_detail =
     Element ''html'' []
       [Element ''table'' [''details-list'']
          [Element ''tr'' []
             [Element ''td'' [''detail-title''] [Text ''Status''], Element ''td'' [] []]]]"

text \<open>The sample run with the blank page behind every detail address.\<close>

definition blank_world :: world where
  "blank_world = sample_world\<lparr>detail_pages := (\<lambda>url. Inr blank_detail)\<rparr>"

text \<open>
  A label cell and a value cell whose texts have white space around them and runs of
  white space, with a line feed, inside. The label has the phrase \<^verbatim>\<open>Application date\<close>
  (third in the table) before the phrase \<^verbatim>\<open>Status\<close> (second in the table).
\<close>

definition spaced_label :: node where
  "spaced_label =
     Element ''td'' [''detail-title''] [Text ''  Application \<newline>  date  / Status '']"

definition spaced_value :: node where
  "spaced_value = Element ''td'' [] [Text ''  Figurative \<newline>  mark '']"

section \<open>Lemmas on strings, association lists and the extraction loop\<close>

lemma collapse_word: "\<forall>c \<in> set w. \<not> is_space c \<Longrightarrow> collapse (w @ u) = w @ collapse u"
  by (induction w) simp_all

lemma collapse_gap:
  assumes "a \<noteq> []" "\<forall>c \<in> set a. is_space c" "u = [] \<or> \<not> is_space (hd u)"
  shows "collapse (a @ u) = CHR '' '' # collapse u"
proof -
  from assms(1) obtain x xs where a: "a = x # xs" by (cases a) auto
  with assms(2) have "dropWhile is_space (xs @ u) = dropWhile is_space u"
    by (simp add: dropWhile_append)
  also have "\<dots> = u" using assms(3) by (cases u) auto
  finally show ?thesis using a assms(2) by simp
qed

lemma splitWords_Nil_iff: "splitWords s = [] \<longleftrightarrow> (\<forall>c \<in> set s. is_space c)"
  by (subst splitWords.simps) (simp add: Let_def dropWhile_eq_Nil_conv)

lemma rtrim_append:
  "rev (dropWhile is_space (rev (w @ r))) =
     (if \<forall>c \<in> set r. is_space c then rev (dropWhile is_space (rev w))
      else w @ rev (dropWhile is_space (rev r)))"
  by (simp add: dropWhile_append)

lemma rtrim_word: "w = [] \<or> \<not> is_space (last w) \<Longrightarrow> rev (dropWhile is_space (rev w)) = w"
  by (cases w rule: rev_cases) auto

lemma trim_Nil_iff: "trim s = [] \<longleftrightarrow> (\<forall>c \<in> set s. is_space c)"
proof -
  let ?t = "dropWhile is_space s"
  show ?thesis
  proof (cases "?t = []")
    case True
    then have "trim s = []" by (simp only: trim_def rev.simps dropWhile.simps)
    moreover from True have "\<forall>c \<in> set s. is_space c" by (simp only: dropWhile_eq_Nil_conv)
    ultimately show ?thesis by simp
  next
    case False
    then obtain x xs where c: "?t = x # xs" by (cases ?t) auto
    from False have "\<not> is_space (hd ?t)" by (rule hd_dropWhile)
    with c have "\<not> is_space x" by simp
    with c have "trim s \<noteq> []" by (simp add: trim_def dropWhile_append)
    moreover from False have "\<not> (\<forall>c \<in> set s. is_space c)" by (simp add: dropWhile_eq_Nil_conv)
    ultimately show ?thesis by simp
  qed
qed

lemma trim_hd: "trim s \<noteq> [] \<Longrightarrow> \<not> is_space (hd (trim s))"
proof -
  assume ne: "trim s \<noteq> []"
  let ?t = "dropWhile is_space s"
  have tne: "?t \<noteq> []"
  proof
    assume "?t = []"
    then have "trim s = []" by (simp only: trim_def rev.simps dropWhile.simps)
    with ne show False ..
  qed
  then obtain x xs where c: "?t = x # xs" by (cases ?t) auto
  from tne have "\<not> is_space (hd ?t)" by (rule hd_dropWhile)
  with c have x: "\<not> is_space x" by simp
  have "trim s = rev (dropWhile is_space (rev ([x] @ xs)))" by (simp add: trim_def c)
  also have "\<dots> = (if \<forall>c \<in> set xs. is_space c then [x] else [x] @ rev (dropWhile is_space (rev xs)))"
    unfolding rtrim_append using x by simp
  finally show ?thesis using x by (simp split: if_splits)
qed

lemma trim_last: "trim s \<noteq> [] \<Longrightarrow> \<not> is_space (last (trim s))"
proof -
  assume ne: "trim s \<noteq> []"
  then have "dropWhile is_space (rev (dropWhile is_space s)) \<noteq> []" by (simp add: trim_def)
  from hd_dropWhile[OF this] show ?thesis
    using ne by (simp add: trim_def last_rev)
qed

lemma collapse_trim_words: "collapse (trim s) = joinWords (splitWords s)"
proof (induction s rule: splitWords.induct)
  case (1 s)
  let ?t = "dropWhile is_space s"
  let ?w = "takeWhile (\<lambda>c. \<not> is_space c) ?t"
  let ?r = "dropWhile (\<lambda>c. \<not> is_space c) ?t"
  show ?case
  proof (cases "?t = []")
    case True
    then have "\<forall>c \<in> set s. is_space c" by (simp only: dropWhile_eq_Nil_conv)
    then have "trim s = []" "splitWords s = []"
      by (simp_all only: trim_Nil_iff splitWords_Nil_iff)
    then show ?thesis by simp
  next
    case False
    have IH: "collapse (trim ?r) = joinWords (splitWords ?r)"
      using "1.IH"[OF refl False] .
    have sw: "splitWords s = ?w # splitWords ?r"
      using False by (subst splitWords.simps) (simp add: Let_def)
    have w: "\<forall>c \<in> set ?w. \<not> is_space c" by (auto dest: set_takeWhileD)
    have wne: "?w \<noteq> []"
      using False hd_dropWhile[OF False] by (cases ?t) auto
    have t: "?t = ?w @ ?r" by simp
    have tr: "trim s = rev (dropWhile is_space (rev (?w @ ?r)))"
      by (simp only: trim_def takeWhile_dropWhile_id)
    note ra = rtrim_append[of ?w ?r]
    have "last ?w \<in> set ?w" using wne by (rule last_in_set)
    with w have "\<not> is_space (last ?w)" by blast
    then have rw: "rev (dropWhile is_space (rev ?w)) = ?w"
      by (rule rtrim_word[OF disjI2])
    show ?thesis
    proof (cases "\<forall>c \<in> set ?r. is_space c")
      case True
      have "trim s = ?w" by (simp only: tr ra rw if_P[OF True])
      moreover from True have "splitWords ?r = []" by (simp only: splitWords_Nil_iff)
      moreover have "collapse ?w = ?w"
        using collapse_word[OF w, of "[]"] by (simp only: append_Nil2 collapse.simps)
      ultimately show ?thesis by (simp only: sw joinWords.simps)
    next
      case nsp: False
      let ?a = "takeWhile is_space ?r"
      have rne: "?r \<noteq> []"
      proof
        assume "?r = []"
        then have "\<forall>c \<in> set ?r. is_space c" by (simp only: list.set ball_empty)
        with nsp show False ..
      qed
      from hd_dropWhile[OF rne] have "is_space (hd ?r)" by (simp only: not_not)
      with rne have ane: "?a \<noteq> []" by (cases ?r) (simp_all only: takeWhile.simps list.sel if_True, simp_all)
      have a: "\<forall>c \<in> set ?a. is_space c" by (auto dest: set_takeWhileD)
      have nall: "\<not> (\<forall>c \<in> set (dropWhile is_space ?r). is_space c)"
      proof
        assume "\<forall>c \<in> set (dropWhile is_space ?r). is_space c"
        then have "dropWhile is_space (dropWhile is_space ?r) = []"
          by (simp only: dropWhile_eq_Nil_conv)
        then have "dropWhile is_space ?r = []" by (simp only: dropWhile_idem)
        then have "\<forall>c \<in> set ?r. is_space c" by (simp only: dropWhile_eq_Nil_conv)
        with nsp show False ..
      qed
      have "rev (dropWhile is_space (rev ?r)) = ?a @ trim ?r"
        using rtrim_append[of ?a "dropWhile is_space ?r"]
        by (simp only: takeWhile_dropWhile_id if_not_P[OF nall] trim_def)
      then have "trim s = ?w @ ?a @ trim ?r"
        by (simp only: tr ra if_not_P[OF nsp])
      moreover have trne: "trim ?r \<noteq> []" unfolding trim_Nil_iff by (rule nsp)
      moreover have "collapse (?a @ trim ?r) = CHR '' '' # collapse (trim ?r)"
        using ane a disjI2[OF trim_hd[OF trne]] by (rule collapse_gap)
      moreover have "splitWords ?r \<noteq> []" unfolding splitWords_Nil_iff by (rule nsp)
      then obtain v vs where "splitWords ?r = v # vs" by (cases "splitWords ?r") blast+
      moreover note collapse_word[OF w, of "?a @ trim ?r"] IH
      ultimately show ?thesis
        by (simp only: sw joinWords.simps)
    qed
  qed
qed

lemma trim_frame:
  "\<exists>a b. s = a @ trim s @ b \<and> (\<forall>c \<in> set a. is_space c) \<and> (\<forall>c \<in> set b. is_space c)"
proof -
  define t where "t = dropWhile is_space s"
  define a where "a = takeWhile is_space s"
  define b where "b = rev (takeWhile is_space (rev t))"
  have "rev (takeWhile is_space (rev t) @ dropWhile is_space (rev t)) =
      rev (dropWhile is_space (rev t)) @ rev (takeWhile is_space (rev t))"
    by (rule rev_append)
  then have "t = trim s @ b"
    by (simp only: takeWhile_dropWhile_id rev_rev_ident trim_def t_def b_def)
  moreover have "s = a @ t" by (simp add: a_def t_def)
  ultimately have "s = a @ trim s @ b" by simp
  moreover have "\<forall>c \<in> set a. is_space c" by (auto simp: a_def dest: set_takeWhileD)
  moreover have "\<forall>c \<in> set b. is_space c" by (auto simp: b_def dest: set_takeWhileD)
  ultimately show ?thesis by blast
qed

lemma includes_s_sublist: "includes_s s p \<longleftrightarrow> sublist p s"
  by (induction s) (simp_all add: sublist_Cons_right)

lemma update_member:
  "(k', v') \<in> set (AList.update k v al) \<Longrightarrow> (k', v') = (k, v) \<or> (k', v') \<in> set al"
  by (induction al) (auto split: if_splits)

lemma find_snd_Some_iff:
  "map_option snd (find P xs) = Some f \<longleftrightarrow>
     (\<exists>i<length xs. snd (xs ! i) = f \<and> P (xs ! i) \<and> (\<forall>j<i. \<not> P (xs ! j)))"
proof
  assume "map_option snd (find P xs) = Some f"
  then obtain x where x: "find P xs = Some x" "snd x = f" by auto
  from x(1) obtain i where "i < length xs" "P (xs ! i)" "x = xs ! i" "\<forall>j<i. \<not> P (xs ! j)"
    unfolding find_Some_iff by auto
  with x(2) show "\<exists>i<length xs. snd (xs ! i) = f \<and> P (xs ! i) \<and> (\<forall>j<i. \<not> P (xs ! j))"
    by auto
next
  assume "\<exists>i<length xs. snd (xs ! i) = f \<and> P (xs ! i) \<and> (\<forall>j<i. \<not> P (xs ! j))"
  then obtain i where i: "i < length xs" "snd (xs ! i) = f" "P (xs ! i)" "\<forall>j<i. \<not> P (xs ! j)"
    by auto
  then have "find P xs = Some (xs ! i)"
    unfolding find_Some_iff by auto
  with i(2) show "map_option snd (find P xs) = Some f" by simp
qed

lemma fieldName_Some_iff:
  "fieldName t = Some f \<longleftrightarrow>
     (\<exists>i<length fieldMappings.
        snd (fieldMappings ! i) = f \<and> includes_s t (fst (fieldMappings ! i)) \<and>
        (\<forall>j<i. \<not> includes_s t (fst (fieldMappings ! j))))"
  unfolding fieldName_def by (rule find_snd_Some_iff)

lemma fieldName_None_iff:
  "fieldName t = None \<longleftrightarrow> (\<forall>i<length fieldMappings. \<not> includes_s t (fst (fieldMappings ! i)))"
proof -
  have "find P xs = None \<longleftrightarrow> (\<forall>x \<in> set xs. \<not> P x)" for P and xs :: "(string \<times> string) list"
    by (auto simp: find_None_iff)
  then show ?thesis
    unfolding fieldName_def by (simp add: all_set_conv_all_nth)
qed

lemma fieldName_in_schema:
  assumes "fieldName t = Some f"
  shows "f \<in> set TrademarkData"
proof -
  from assms obtain i where "i < length fieldMappings" "snd (fieldMappings ! i) = f"
    unfolding fieldName_Some_iff by auto
  then have "f \<in> snd ` set fieldMappings" by (metis nth_mem imageI)
  then show ?thesis by (simp add: fieldMappings_def TrademarkData_def)
qed

lemma resolveValue_shape:
  "resolveValue v = None \<or> (\<exists>s. resolveValue v = Some s \<and> s \<noteq> [])"
  by (auto simp: resolveValue_def Let_def falsy_def split: option.splits)

lemma extractPair_wellFormed:
  assumes "\<forall>e \<in> set r. wellFormedEntry e"
  shows "\<forall>e \<in> set (extractPair l v r). wellFormedEntry e"
proof (cases "fieldName (labelText l)")
  case None
  with assms show ?thesis by (simp add: extractPair_def)
next
  case (Some f)
  have "wellFormedEntry (f, resolveValue v)"
    using fieldName_in_schema[OF Some] resolveValue_shape[of v]
    by (auto simp: wellFormedEntry_def)
  with assms Some show ?thesis
    by (auto simp: extractPair_def dest!: update_member)
qed

text \<open>One round of the loop over the cells of a row.\<close>

lemma scanCells_step:
  assumes "i < length cells"
  shows "scanCells cells i r =
     scanCells cells (i + 2)
       (if hasClass ''detail-title'' (cells ! i) \<and> i + 1 < length cells
        then extractPair (cells ! i) (cells ! (i + 1)) r else r)"
  using assms by (subst scanCells.simps) (simp add: Let_def)

lemma scanCells_done: "\<not> i < length cells \<Longrightarrow> scanCells cells i r = r"
  by (subst scanCells.simps) simp

lemma scanCells_wellFormed:
  "\<forall>e \<in> set r. wellFormedEntry e \<Longrightarrow> \<forall>e \<in> set (scanCells cells i r). wellFormedEntry e"
proof (induction cells i r rule: scanCells.induct)
  case (1 cells i result)
  show ?case
  proof (cases "i < length cells")
    case False
    with "1.prems" show ?thesis by (simp add: scanCells_done)
  next
    case True
    let ?r' = "(let labelCell = cells ! i;
               valueCell = (if i + 1 < length cells then Some (cells ! (i + 1)) else None)
           in if hasClass ''detail-title'' labelCell \<and> valueCell \<noteq> None
              then extractPair labelCell (the valueCell) result
              else result)"
    have step: "scanCells cells i result = scanCells cells (i + 2) ?r'"
      using True by (subst scanCells.simps) simp
    have "\<forall>e \<in> set ?r'. wellFormedEntry e"
      using "1.prems" extractPair_wellFormed[OF "1.prems"] by (simp add: Let_def)
    from "1.IH"[OF True this] show ?thesis unfolding step .
  qed
qed

lemma scanCells_keys:
  "fst ` set (scanCells cells i r) =
     fst ` set r \<union> {f. \<exists>j. i \<le> j \<and> even (j - i) \<and> contributes cells j f}"
proof (induction cells i r rule: scanCells.induct)
  case (1 cells i result)
  show ?case
  proof (cases "i < length cells")
    case False
    then show ?thesis by (auto simp: scanCells_done contributes_def)
  next
    case True
    let ?r' = "(let labelCell = cells ! i;
               valueCell = (if i + 1 < length cells then Some (cells ! (i + 1)) else None)
           in if hasClass ''detail-title'' labelCell \<and> valueCell \<noteq> None
              then extractPair labelCell (the valueCell) result
              else result)"
    have step: "scanCells cells i result = scanCells cells (i + 2) ?r'"
      using True by (subst scanCells.simps) simp
    have here: "fst ` set ?r' = fst ` set result \<union> {f. contributes cells i f}"
      by (auto simp: contributes_def extractPair_def Let_def AList.dom_update
               split: option.splits)
    have split: "{f. \<exists>j. i \<le> j \<and> even (j - i) \<and> contributes cells j f} =
        {f. contributes cells i f} \<union>
        {f. \<exists>j. i + 2 \<le> j \<and> even (j - (i + 2)) \<and> contributes cells j f}"
      (is "?A = ?B \<union> ?C")
    proof (rule set_eqI)
      fix f
      show "f \<in> ?A \<longleftrightarrow> f \<in> ?B \<union> ?C"
      proof
        assume "f \<in> ?A"
        then obtain j where j: "i \<le> j" "even (j - i)" "contributes cells j f" by auto
        show "f \<in> ?B \<union> ?C"
        proof (cases "j = i")
          case True
          with j show ?thesis by simp
        next
          case False
          with j(1,2) have "i + 2 \<le> j \<and> even (j - (i + 2))" by presburger
          with j(3) show ?thesis by auto
        qed
      next
        assume "f \<in> ?B \<union> ?C"
        then consider "contributes cells i f"
          | j where "i + 2 \<le> j" "even (j - (i + 2))" "contributes cells j f"
          by auto
        then show "f \<in> ?A"
        proof cases
          case 1
          then show ?thesis by (auto intro: exI[of _ i])
        next
          case 2
          then have "i \<le> j \<and> even (j - i)" by presburger
          with 2(3) show ?thesis by auto
        qed
      qed
    qed
    show ?thesis
      unfolding step split using "1.IH"[OF True] here by auto
  qed
qed

lemma foldl_scan_wellFormed:
  "\<forall>e \<in> set r. wellFormedEntry e \<Longrightarrow>
   \<forall>e \<in> set (foldl (\<lambda>result row. scanCells (querySelectorAll_td row) 0 result) r rows).
     wellFormedEntry e"
proof (induction rows arbitrary: r)
  case Nil
  then show ?case by simp
next
  case (Cons row rows)
  from Cons.IH[OF scanCells_wellFormed[OF Cons.prems]] show ?case by simp
qed

lemma foldl_scan_keys:
  "fst ` set (foldl (\<lambda>result row. scanCells (querySelectorAll_td row) 0 result) r rows) =
     fst ` set r \<union>
     {f. \<exists>row \<in> set rows. \<exists>j. even j \<and> contributes (querySelectorAll_td row) j f}"
proof (induction rows arbitrary: r)
  case Nil
  show ?case by simp
next
  case (Cons row rows)
  show ?case
    unfolding foldl_Cons Cons.IH scanCells_keys by auto
qed

lemma getDetailInformation_keys:
  "fst ` set (getDetailInformation document) =
     {f. \<exists>row \<in> set (querySelectorAll_rows document).
           \<exists>j. even j \<and> contributes (querySelectorAll_td row) j f}"
  unfolding getDetailInformation_def foldl_scan_keys by simp

lemma getDetailInformation_wellFormed:
  "\<forall>e \<in> set (getDetailInformation document). wellFormedEntry e"
  unfolding getDetailInformation_def by (rule foldl_scan_wellFormed) simp

text \<open>The sample page, evaluated.\<close>

lemmas extraction_defs =
  getDetailInformation_def querySelectorAll_rows_def querySelectorAll_td_def
  querySelector_highlight_def descendants_def hasTag_def hasClass_def scanCells.simps
  extractPair_def labelText_def fieldName_def fieldMappings_def resolveValue_def falsy_def
  trim_def is_space_def

lemma sample_detail_rows:
  "querySelectorAll_rows sample_detail =
     [Element ''tr'' []
        [Element ''td'' [''detail-title''] [Text ''  Name/Title ''], sample_value],
      Element ''tr'' []
        [sample_label,
         Element ''td'' [] [Text ''   ''],
         Element ''td'' [''detail-title''] [Text ''Trademark type'']]]"
  by (simp add: sample_detail_def sample_label_def sample_value_def querySelectorAll_rows_def)

lemma sample_detail_record:
  "getDetailInformation sample_detail = [(''nameTitle'', Some ''X''), (''status'', None)]"
  by (simp add: sample_detail_def sample_label_def sample_value_def extraction_defs)

section \<open>Lemmas on the form configuration and the search\<close>

lemma configureCheckbox_step:
  assumes "k < length (checkboxes w)" "\<not> stuck (checkboxes w ! k)"
  shows "configureCheckbox k w =
     (Inr (), w\<lparr>checkboxes := (checkboxes w)[k := configured (checkboxes w ! k)],
               actions := actions w @
                 (if toggled (checkboxes w ! k) then [ClickBox k, WaitForTimeout 100] else [])\<rparr>)"
proof (cases "toggled (checkboxes w ! k)")
  case True
  with assms(2) have "cb_proxy (checkboxes w ! k)" by (simp add: stuck_def)
  with True show ?thesis
    by (simp add: configureCheckbox_def Let_def toggled_def shouldBeChecked_def configured_def
        evaluateHandle_def truthy_def ok_def clickBox_def act_def)
next
  case False
  then have "configureCheckbox k w = (Inr (), w)"
    by (auto simp: configureCheckbox_def Let_def toggled_def shouldBeChecked_def)
  with False show ?thesis
    by (simp add: configured_def)
qed

lemma configure_from:
  assumes "i \<le> length (checkboxes w)"
    and "\<forall>k. i \<le> k \<and> k < length (checkboxes w) \<longrightarrow> \<not> stuck (checkboxes w ! k)"
  shows "sequence (map configureCheckbox [i..<length (checkboxes w)]) w =
     (Inr (), w\<lparr>checkboxes := take i (checkboxes w) @ map configured (drop i (checkboxes w)),
               actions := actions w @ boxClicks (checkboxes w) i\<rparr>)"
  using assms
proof (induction "length (checkboxes w) - i" arbitrary: i w)
  case 0
  then have "i = length (checkboxes w)" by simp
  then show ?case by (simp add: boxClicks_def)
next
  case (Suc d)
  let ?cbs = "checkboxes w"
  let ?n = "length ?cbs"
  from Suc.hyps(2) have i: "i < ?n" by simp
  with Suc.prems have ns: "\<not> stuck (?cbs ! i)" by simp
  let ?w1 = "w\<lparr>checkboxes := ?cbs[i := configured (?cbs ! i)],
               actions := actions w @
                 (if toggled (?cbs ! i) then [ClickBox i, WaitForTimeout 100] else [])\<rparr>"
  have step: "configureCheckbox i w = (Inr (), ?w1)"
    by (rule configureCheckbox_step[OF i ns])
  have len: "length (checkboxes ?w1) = ?n" by simp
  have d: "d = length (checkboxes ?w1) - Suc i" using Suc.hyps(2) by simp
  have le: "Suc i \<le> length (checkboxes ?w1)" using i by simp
  have rest: "\<forall>k. Suc i \<le> k \<and> k < length (checkboxes ?w1) \<longrightarrow> \<not> stuck (checkboxes ?w1 ! k)"
    using Suc.prems(2) by simp
  have IH: "sequence (map configureCheckbox [Suc i..<?n]) ?w1 =
     (Inr (), ?w1\<lparr>checkboxes := take (Suc i) (checkboxes ?w1) @ map configured (drop (Suc i) (checkboxes ?w1)),
               actions := actions ?w1 @ boxClicks (checkboxes ?w1) (Suc i)\<rparr>)"
    using Suc.hyps(1)[OF d le rest] unfolding len .
  have cbs: "take (Suc i) (checkboxes ?w1) @ map configured (drop (Suc i) (checkboxes ?w1)) =
      take i ?cbs @ map configured (drop i ?cbs)"
  proof -
    have "take (Suc i) (?cbs[i := configured (?cbs ! i)]) = take i ?cbs @ [configured (?cbs ! i)]"
      using i by (simp add: take_Suc_conv_app_nth)
    moreover have "drop i ?cbs = ?cbs ! i # drop (Suc i) ?cbs"
      using i by (simp add: Cons_nth_drop_Suc)
    ultimately show ?thesis by simp
  qed
  have clicks: "(if toggled (?cbs ! i) then [ClickBox i, WaitForTimeout 100] else []) @
       boxClicks (checkboxes ?w1) (Suc i) = boxClicks ?cbs i"
  proof -
    have c1: "checkboxes ?w1 = ?cbs[i := configured (?cbs ! i)]" by simp
    have eq: "map (\<lambda>k. if toggled (?cbs[i := configured (?cbs ! i)] ! k)
                        then [ClickBox k, WaitForTimeout 100] else []) [Suc i..<?n]
        = map (\<lambda>k. if toggled (?cbs ! k) then [ClickBox k, WaitForTimeout 100] else [])
            [Suc i..<?n]"
      by (rule map_cong) auto
    have "boxClicks (checkboxes ?w1) (Suc i) =
        concat (map (\<lambda>k. if toggled (?cbs ! k) then [ClickBox k, WaitForTimeout 100] else [])
                  [Suc i..<?n])"
      by (simp only: boxClicks_def c1 length_list_update eq)
    moreover have "boxClicks ?cbs i =
        (if toggled (?cbs ! i) then [ClickBox i, WaitForTimeout 100] else []) @
        concat (map (\<lambda>k. if toggled (?cbs ! k) then [ClickBox k, WaitForTimeout 100] else [])
                  [Suc i..<?n])"
      using i by (simp add: boxClicks_def upt_conv_Cons)
    ultimately show ?thesis by simp
  qed
  have "sequence (map configureCheckbox [i..<?n]) w = sequence (map configureCheckbox [Suc i..<?n]) ?w1"
    using i step by (simp add: upt_conv_Cons)
  also note IH
  finally show ?case
    unfolding cbs using clicks by simp
qed

lemma configureCheckboxes_result:
  assumes "\<forall>c \<in> set (checkboxes w). \<not> stuck c"
  shows "configureCheckboxes w =
     (Inr (), w\<lparr>checkboxes := map configured (checkboxes w),
               actions := actions w @ boxClicks (checkboxes w) 0\<rparr>)"
proof -
  have "\<forall>k. 0 \<le> k \<and> k < length (checkboxes w) \<longrightarrow> \<not> stuck (checkboxes w ! k)"
    using assms by simp
  from configure_from[OF _ this] show ?thesis
    by (simp add: configureCheckboxes_def)
qed

lemma configureCheckbox_stuck:
  assumes "k < length (checkboxes w)" "stuck (checkboxes w ! k)"
  shows "configureCheckbox k w = (Inl (TypeError ''box.click is not a function''), w)"
  using assms
  by (simp add: configureCheckbox_def Let_def stuck_def toggled_def shouldBeChecked_def
        evaluateHandle_def truthy_def throw_def)

lemma configure_fails:
  assumes "i \<le> k" "k < length (checkboxes w)" "stuck (checkboxes w ! k)"
  shows "fst (sequence (map configureCheckbox [i..<length (checkboxes w)]) w) \<noteq> Inr ()"
  using assms
proof (induction "k - i" arbitrary: i w)
  case 0
  then have "i = k" by simp
  with 0 have "[i..<length (checkboxes w)] = k # [Suc k..<length (checkboxes w)]"
    by (simp add: upt_conv_Cons)
  with 0 \<open>i = k\<close> show ?case
    by (simp add: configureCheckbox_stuck)
next
  case (Suc d)
  let ?cbs = "checkboxes w"
  let ?n = "length ?cbs"
  from Suc.hyps(2) Suc.prems have i: "i < k" "i < ?n" by simp_all
  then have upt: "[i..<?n] = i # [Suc i..<?n]" by (simp add: upt_conv_Cons)
  show ?case
  proof (cases "stuck (?cbs ! i)")
    case True
    with i(2) upt show ?thesis by (simp add: configureCheckbox_stuck)
  next
    case False
    let ?w1 = "w\<lparr>checkboxes := ?cbs[i := configured (?cbs ! i)],
               actions := actions w @
                 (if toggled (?cbs ! i) then [ClickBox i, WaitForTimeout 100] else [])\<rparr>"
    have step: "configureCheckbox i w = (Inr (), ?w1)"
      by (rule configureCheckbox_step[OF i(2) False])
    have len: "length (checkboxes ?w1) = ?n" by simp
    have d: "d = k - Suc i" using Suc.hyps(2) by simp
    have le: "Suc i \<le> k" using i by simp
    have k: "k < length (checkboxes ?w1)" using Suc.prems(2) by simp
    have st: "stuck (checkboxes ?w1 ! k)" using Suc.prems(3) i by simp
    from Suc.hyps(1)[OF d le k st]
    have "fst (sequence (map configureCheckbox [Suc i..<?n]) ?w1) \<noteq> Inr ()"
      unfolding len .
    with upt step show ?thesis by simp
  qed
qed

lemma configureCheckboxes_completes_iff:
  "fst (configureCheckboxes w) = Inr () \<longleftrightarrow> (\<forall>c \<in> set (checkboxes w). \<not> stuck c)"
proof
  assume ok: "fst (configureCheckboxes w) = Inr ()"
  show "\<forall>c \<in> set (checkboxes w). \<not> stuck c"
  proof
    fix c
    assume "c \<in> set (checkboxes w)"
    then obtain k where k: "k < length (checkboxes w)" "checkboxes w ! k = c"
      by (auto simp: in_set_conv_nth)
    show "\<not> stuck c"
    proof
      assume "stuck c"
      with k have "stuck (checkboxes w ! k)" by simp
      from configure_fails[OF _ k(1) this, of 0] ok show False
        by (simp add: configureCheckboxes_def)
    qed
  qed
next
  assume "\<forall>c \<in> set (checkboxes w). \<not> stuck c"
  then show "fst (configureCheckboxes w) = Inr ()"
    by (simp add: configureCheckboxes_result)
qed

lemma configured_props:
  shows "cb_id (configured c) = cb_id c"
    and "\<not> falsy (cb_id c) \<Longrightarrow>
         cb_checked (configured c) = (the (cb_id c) \<in> set targetCheckboxes)"
    and "falsy (cb_id c) \<Longrightarrow> cb_checked (configured c) = cb_checked c"
  by (auto simp: configured_def toggled_def shouldBeChecked_def)

lemma ClickBox_in_boxClicks:
  "ClickBox k \<in> set (boxClicks cbs i) \<longleftrightarrow> i \<le> k \<and> k < length cbs \<and> toggled (cbs ! k)"
  by (auto simp: boxClicks_def split: if_splits)

lemma no_TypeText_in_boxClicks: "filter isTypeText (boxClicks cbs i) = []"
  by (auto simp: boxClicks_def filter_empty_conv isTypeText_def split: if_splits)

lemma foldl_typeChar:
  "selection w = False \<Longrightarrow>
   foldl (typeChar selector) w text =
     w\<lparr>inputs := (inputs w)(selector := inputs w selector @ text), selection := False\<rparr>"
proof (induction "text" arbitrary: w)
  case Nil
  then show ?case by simp
next
  case (Cons c cs)
  let ?w1 = "typeChar selector w c"
  have w1: "?w1 = w\<lparr>inputs := (inputs w)(selector := inputs w selector @ [c]),
                     selection := False\<rparr>"
    using Cons.prems by (simp add: typeChar_def)
  have "foldl (typeChar selector) w (c # cs) = foldl (typeChar selector) ?w1 cs"
    by simp
  also have "\<dots> =
      ?w1\<lparr>inputs := (inputs ?w1)(selector := inputs ?w1 selector @ cs), selection := False\<rparr>"
    by (rule Cons.IH) (simp add: typeChar_def)
  also have "\<dots> = w\<lparr>inputs := (inputs w)(selector := inputs w selector @ c # cs),
                      selection := False\<rparr>"
    unfolding w1 by simp
  finally show ?case .
qed

lemma inputDateValue_result:
  "inputDateValue selector val w =
     (Inr (), w\<lparr>focus := Some selector, selection := False,
               inputs := (inputs w)(selector := val),
               actions := actions w @
                 [Click selector, Press ''Control+A'', Press ''Backspace'',
                  TypeText selector val, WaitForTimeout 300]\<rparr>)"
proof -
  let ?w3 = "press ''Backspace'' (press ''Control+A'' (click selector w))"
  have w3: "?w3 = w\<lparr>focus := Some selector, selection := False,
               inputs := (inputs w)(selector := []),
               actions := actions w @ [Click selector, Press ''Control+A'', Press ''Backspace'']\<rparr>"
    by (simp add: press_def click_def act_def)
  have "typeText selector val ?w3 = w\<lparr>focus := Some selector, selection := False,
               inputs := (inputs w)(selector := val),
               actions := actions w @ [Click selector, Press ''Control+A'', Press ''Backspace'',
                  TypeText selector val]\<rparr>"
    unfolding w3 by (simp add: typeText_def act_def foldl_typeChar)
  then show ?thesis
    by (simp add: inputDateValue_def ok_def act_def)
qed

lemma checkResult_result:
  "checkResult w =
     ((case errorText w of
         Some t \<Rightarrow>
           if includes_s t ''no results found''
           then Inl (NonRetryableError ''No results found for the given criteria'')
           else if includes_s t ''too many results found''
           then Inl (NonRetryableError ''Too many results found. Please narrow your search criteria'')
           else Inr ()
       | None \<Rightarrow> Inr ()), w)"
  by (simp add: checkResult_def includes_opt_def throw_def split: option.splits)

lemma executeSearch_result:
  assumes "\<forall>c \<in> set (checkboxes w). \<not> stuck c"
  shows "executeSearch options w = (searchOutcome w, searchedWorld options w)"
proof -
  let ?w1 = "act (WaitForSelector ''.search-attr-container'' 20000)
              (act (WaitForLoadState ''networkidle'')
                (logEntry (PerformingSearch (startDate options) (endDate options)) w))"
  have cb: "checkboxes ?w1 = checkboxes w" by (simp add: act_def logEntry_def)
  have c1: "configureCheckboxes ?w1 =
     (Inr (), ?w1\<lparr>checkboxes := map configured (checkboxes w),
               actions := actions ?w1 @ boxClicks (checkboxes w) 0\<rparr>)"
    using configureCheckboxes_result[of ?w1] assms unfolding cb by simp
  let ?w2 = "?w1\<lparr>checkboxes := map configured (checkboxes w),
               actions := actions ?w1 @ boxClicks (checkboxes w) 0\<rparr>"
  have w5: "act Submit (snd (inputDateValue ''#attribute_date_to'' (startDate options)
              (snd (inputDateValue ''#attribute_date_from'' (endDate options) ?w2)))) =
        (searchedWorld options w)\<lparr>actions := actions w @
         [WaitForLoadState ''networkidle'', WaitForSelector ''.search-attr-container'' 20000] @
         boxClicks (checkboxes w) 0 @ dateActions options @ [Submit]\<rparr>"
    by (simp add: inputDateValue_result searchedWorld_def dateActions_def act_def logEntry_def)
  have "executeSearch options w =
      sequence [waitForFunction, checkResult]
        (act Submit (snd (inputDateValue ''#attribute_date_to'' (startDate options)
              (snd (inputDateValue ''#attribute_date_from'' (endDate options) ?w2)))))"
    unfolding executeSearch_def
    by (simp add: ok_def c1 inputDateValue_result)
  also have "\<dots> = (searchOutcome w, searchedWorld options w)"
    unfolding w5
    by (simp add: waitForFunction_def checkResult_result errorText_def searchOutcome_def
          searchedWorld_def act_def split: option.splits)
  finally show ?thesis .
qed

lemmas lower_defs = toLowerCase_def toLowerChar_def char_of_def bit_Suc_0_iff trim_def is_space_def

section \<open>Lemmas on pagination and the handlers\<close>

lemma linksFrom_upt:
  "linksFrom ps c n = concat (map (\<lambda>k. row_links (ps k)) [c..<c + n + 1])"
proof (induction n arbitrary: c)
  case 0
  show ?case by simp
next
  case (Suc n)
  have "[c..<c + Suc n + 1] = c # [Suc c..<Suc c + n + 1]"
    using upt_conv_Cons[of c "c + Suc n + 1"] by simp
  then show ?case by (simp add: Suc.IH del: upt_Suc)
qed

lemma walkFrom_upt:
  "walkFrom c n =
     concat (map (\<lambda>k. [EnqueueLinks k, ClickNext, WaitForTimeout 1500]) [c..<c + n]) @
     [EnqueueLinks (c + n)]"
proof (induction n arbitrary: c)
  case 0
  show ?case by simp
next
  case (Suc n)
  have "[c..<c + Suc n] = c # [Suc c..<Suc c + n]"
    using upt_conv_Cons[of c "c + Suc n"] by simp
  then show ?case by (simp add: Suc.IH del: upt_Suc)
qed

lemma paginate_stop:
  assumes "next_control (pages w (current w)) \<noteq> Some False"
  shows "paginate w = Some (pagedWorld w 0)"
proof -
  have "logEntry (NoMorePages) (enqueueLinks w) = pagedWorld w 0"
    by (cases w) (simp add: enqueueLinks_def act_def logEntry_def pagedWorld_def)
  with assms show ?thesis
    by (subst paginate.simps) (simp add: nextButton_def enqueueLinks_def act_def)
qed

lemma paginate_next:
  assumes "next_control (pages w (current w)) = Some False"
  shows "paginate w = paginate (turnedPage w)"
proof -
  have "act (WaitForTimeout 1500)
          (clickNext (logEntry (NavigatingToNextPage) (enqueueLinks w))) =
        turnedPage w"
    by (cases w) (simp add: enqueueLinks_def act_def logEntry_def clickNext_def turnedPage_def)
  with assms show ?thesis
    by (subst paginate.simps) (simp add: nextButton_def enqueueLinks_def act_def)
qed

lemma paginate_pages:
  assumes "\<forall>k<n. next_control (pages w (current w + k)) = Some False"
    and "next_control (pages w (current w + n)) \<noteq> Some False"
  shows "paginate w = Some (pagedWorld w n)"
  using assms
proof (induction n arbitrary: w)
  case 0
  then show ?case by (simp add: paginate_stop)
next
  case (Suc n)
  from Suc.prems(1) have "next_control (pages w (current w + 0)) = Some False" by blast
  then have step: "paginate w = paginate (turnedPage w)" by (simp add: paginate_next)
  have a: "\<forall>k<n. next_control (pages (turnedPage w) (current (turnedPage w) + k)) = Some False"
    using Suc.prems(1) by (auto simp: turnedPage_def)
  have b: "next_control (pages (turnedPage w) (current (turnedPage w) + n)) \<noteq> Some False"
    using Suc.prems(2) by (simp add: turnedPage_def)
  have "pagedWorld (turnedPage w) n = pagedWorld w (Suc n)"
    by (cases w) (simp add: pagedWorld_def turnedPage_def)
  with Suc.IH[OF a b] step show ?case by simp
qed

lemma paginate_returns_stop:
  assumes "paginate w = Some w'"
  shows "\<exists>k. next_control (pages w (current w + k)) \<noteq> Some False"
  using assms
proof (induction rule: paginate.raw_induct[rotated 1, consumes 1])
  case (1 paginate w w')
  show ?case
  proof (cases "next_control (pages w (current w)) = Some False")
    case False
    then have "next_control (pages w (current w + 0)) \<noteq> Some False" by simp
    then show ?thesis by blast
  next
    case True
    let ?w2 = "act (WaitForTimeout 1500)
                   (clickNext (logEntry (NavigatingToNextPage) (enqueueLinks w)))"
    from True 1(2) have "paginate ?w2 = Some w'"
      by (simp add: Let_def nextButton_def enqueueLinks_def act_def)
    from 1(1)[OF this] obtain k where "next_control (pages ?w2 (current ?w2 + k)) \<noteq> Some False"
      by blast
    then have "next_control (pages w (current w + Suc k)) \<noteq> Some False"
      by (simp add: enqueueLinks_def act_def logEntry_def clickNext_def)
    then show ?thesis by blast
  qed
qed

lemma paginate_None_iff:
  "paginate w = None \<longleftrightarrow> (\<forall>k. next_control (pages w (current w + k)) = Some False)"
proof
  assume "paginate w = None"
  show "\<forall>k. next_control (pages w (current w + k)) = Some False"
  proof (rule ccontr)
    assume "\<not> (\<forall>k. next_control (pages w (current w + k)) = Some False)"
    then have ex: "\<exists>k. next_control (pages w (current w + k)) \<noteq> Some False" by simp
    define n where "n = (LEAST k. next_control (pages w (current w + k)) \<noteq> Some False)"
    have "next_control (pages w (current w + n)) \<noteq> Some False"
      unfolding n_def using ex by (rule LeastI_ex)
    moreover have "\<forall>k<n. next_control (pages w (current w + k)) = Some False"
      unfolding n_def using not_less_Least by blast
    ultimately have "paginate w = Some (pagedWorld w n)" by (simp add: paginate_pages)
    with \<open>paginate w = None\<close> show False by simp
  qed
next
  assume all: "\<forall>k. next_control (pages w (current w + k)) = Some False"
  show "paginate w = None"
  proof (cases "paginate w")
    case None then show ?thesis .
  next
    case (Some w')
    from paginate_returns_stop[OF this] all show ?thesis by blast
  qed
qed

lemma detailHandler_frame:
  "detail_pages (detailHandler url w) = detail_pages w"
  by (simp add: detailHandler_def Let_def act_def logEntry_def split: sum.splits)

lemma detailHandler_results:
  "results (detailHandler url w) = results w @ extractedFrom (detail_pages w) url"
  by (simp add: detailHandler_def extractedFrom_def Let_def act_def logEntry_def split: sum.splits)

lemma detailJobs_Cons: "detailJobs (url # urls) w = detailJobs urls (detailHandler url w)"
  by (simp add: detailJobs_def)

lemma detailJobs_results:
  "results (detailJobs urls w) = results w @ concat (map (extractedFrom (detail_pages w)) urls)"
proof (induction urls arbitrary: w)
  case Nil
  show ?case by (simp add: detailJobs_def)
next
  case (Cons url urls)
  show ?case
    by (simp add: detailJobs_Cons Cons.IH detailHandler_frame detailHandler_results)
qed

lemma blank_detail_record: "getDetailInformation blank_detail = [(''status'', None)]"
  by (simp add: blank_detail_def extraction_defs)

section \<open>Field extraction: the claims\<close>

text \<open>
  Claim C4. The text that is matched is the white-space-collapsed text of the label cell:
  its words with one space between them. A phrase matches when it is a contiguous piece
  of that text. When the collapsed text contains the phrase at position \<open>i\<close> of the
  table and none of the phrases before it, the pair is stored under the field of
  position \<open>i\<close>, whatever later phrases the text contains as well and wherever they
  stand in the text; when it contains no phrase, the pair adds nothing.
\<close>

theorem first_match_wins:
  "labelText labelCell = joinWords (splitWords (textContent labelCell)) \<and>
   (includes_s (labelText labelCell) phrase \<longleftrightarrow>
      (\<exists>a b. joinWords (splitWords (textContent labelCell)) = a @ phrase @ b)) \<and>
   (\<forall>i<length fieldMappings.
      sublist (fst (fieldMappings ! i)) (joinWords (splitWords (textContent labelCell))) \<and>
      (\<forall>j<i. \<not> sublist (fst (fieldMappings ! j))
                    (joinWords (splitWords (textContent labelCell)))) \<longrightarrow>
      extractPair labelCell valueCell result =
        AList.update (snd (fieldMappings ! i)) (resolveValue valueCell) result) \<and>
   ((\<forall>i<length fieldMappings.
       \<not> sublist (fst (fieldMappings ! i)) (joinWords (splitWords (textContent labelCell)))) \<longrightarrow>
      extractPair labelCell valueCell result = result)"
proof (intro conjI allI impI)
  show ltext: "labelText labelCell = joinWords (splitWords (textContent labelCell))"
    by (simp only: labelText_def collapse_trim_words)
  show "includes_s (labelText labelCell) phrase \<longleftrightarrow>
      (\<exists>a b. joinWords (splitWords (textContent labelCell)) = a @ phrase @ b)"
    by (simp only: ltext includes_s_sublist sublist_def)
next
  fix i
  assume "i < length fieldMappings"
    and "sublist (fst (fieldMappings ! i)) (joinWords (splitWords (textContent labelCell))) \<and>
      (\<forall>j<i. \<not> sublist (fst (fieldMappings ! j))
                    (joinWords (splitWords (textContent labelCell))))"
  then have "i < length fieldMappings \<and>
      includes_s (labelText labelCell) (fst (fieldMappings ! i)) \<and>
      (\<forall>j<i. \<not> includes_s (labelText labelCell) (fst (fieldMappings ! j)))"
    unfolding labelText_def collapse_trim_words includes_s_sublist by blast
  then have "fieldName (labelText labelCell) = Some (snd (fieldMappings ! i))"
    unfolding fieldName_Some_iff by blast
  then show "extractPair labelCell valueCell result =
        AList.update (snd (fieldMappings ! i)) (resolveValue valueCell) result"
    by (simp add: extractPair_def)
next
  assume "\<forall>i<length fieldMappings.
       \<not> sublist (fst (fieldMappings ! i)) (joinWords (splitWords (textContent labelCell)))"
  then have "\<forall>i<length fieldMappings. \<not> includes_s (labelText labelCell) (fst (fieldMappings ! i))"
    unfolding labelText_def collapse_trim_words includes_s_sublist by blast
  then have "fieldName (labelText labelCell) = None"
    unfolding fieldName_None_iff .
  then show "extractPair labelCell valueCell result = result"
    by (simp add: extractPair_def)
qed

text \<open>
  The text of the spaced label does not contain the phrase \<^verbatim>\<open>Application date\<close> as it
  stands, and contains it once collapsed. Collapsed, it contains \<^verbatim>\<open>Status\<close> (position
  1) after \<^verbatim>\<open>Application date\<close> (position 2), and not \<^verbatim>\<open>Name/Title\<close> (position 0):
  the field is \<^verbatim>\<open>status\<close>.
\<close>

theorem first_match_wins_witness:
  "joinWords (splitWords (textContent spaced_label)) = ''Application date / Status'' \<and>
   \<not> includes_s (textContent spaced_label) ''Application date'' \<and>
   includes_s (labelText spaced_label) ''Application date'' \<and>
   includes_s (labelText spaced_label) ''Status'' \<and>
   extractPair spaced_label sample_value [] = [(''status'', Some ''X'')]"
proof -
  have ltext: "labelText spaced_label = ''Application date / Status''"
    by (simp add: spaced_label_def labelText_def trim_def is_space_def)
  note inst = first_match_wins[of spaced_label _ sample_value "[]"]
  from inst ltext
  have words: "joinWords (splitWords (textContent spaced_label)) = ''Application date / Status''"
    by simp
  have raw: "\<not> includes_s (textContent spaced_label) ''Application date''"
    by (simp add: spaced_label_def)
  have one: "(1::nat) < length fieldMappings"
    by (simp add: fieldMappings_def)
  have hit: "sublist (fst (fieldMappings ! 1)) (joinWords (splitWords (textContent spaced_label))) \<and>
      (\<forall>j<1. \<not> sublist (fst (fieldMappings ! j))
                    (joinWords (splitWords (textContent spaced_label))))"
    unfolding words includes_s_sublist[symmetric] by (simp add: fieldMappings_def)
  have val: "resolveValue sample_value = Some ''X''"
    by (simp add: sample_value_def extraction_defs)
  from inst one hit
  have "extractPair spaced_label sample_value [] =
      AList.update (snd (fieldMappings ! 1)) (resolveValue sample_value) []"
    by blast
  then have "extractPair spaced_label sample_value [] = [(''status'', Some ''X'')]"
    by (simp add: val fieldMappings_def)
  with words raw show ?thesis
    unfolding ltext by simp
qed

text \<open>
  Claim C5. The value stored for a matched pair is the trimmed text of the highlighted
  span when there is such a span and that text is not empty, and otherwise the
  white-space-collapsed text of the whole value cell: its words with one space between
  them; an empty result is stored as \<^verbatim>\<open>null\<close>. Trimming takes white space, and
  nothing else, from both ends of a text, and leaves none at either end. The field of a
  matched label is a key of the record right after the pair, with that value (also when
  the value is \<^verbatim>\<open>null\<close>), and it is a key of the record that
  \<^verbatim>\<open>getDetailInformation\<close> returns.
\<close>

theorem resolved_value:
  "resolveValue valueCell =
     (let whole = joinWords (splitWords (textContent valueCell));
          fallback = (if whole = [] then None else Some whole)
      in case querySelector_highlight valueCell of
           None \<Rightarrow> fallback
         | Some span \<Rightarrow>
             if trim (textContent span) \<noteq> [] then Some (trim (textContent span))
             else fallback) \<and>
   (\<exists>a b. s = a @ trim s @ b \<and> (\<forall>c \<in> set a. is_space c) \<and> (\<forall>c \<in> set b. is_space c)) \<and>
   (trim s \<noteq> [] \<longrightarrow> \<not> is_space (hd (trim s)) \<and> \<not> is_space (last (trim s))) \<and>
   (fieldName (labelText labelCell) = Some f \<longrightarrow>
      map_of (extractPair labelCell valueCell result) f = Some (resolveValue valueCell)) \<and>
   (row \<in> set (querySelectorAll_rows document) \<and> even i \<and>
    i + 1 < length (querySelectorAll_td row) \<and>
    hasClass ''detail-title'' (querySelectorAll_td row ! i) \<and>
    fieldName (labelText (querySelectorAll_td row ! i)) = Some f \<longrightarrow>
      f \<in> fst ` set (getDetailInformation document))"
proof (intro conjI impI)
  show "resolveValue valueCell =
     (let whole = joinWords (splitWords (textContent valueCell));
          fallback = (if whole = [] then None else Some whole)
      in case querySelector_highlight valueCell of
           None \<Rightarrow> fallback
         | Some span \<Rightarrow>
             if trim (textContent span) \<noteq> [] then Some (trim (textContent span))
             else fallback)"
    unfolding collapse_trim_words[symmetric]
    by (simp add: resolveValue_def Let_def falsy_def split: option.splits)
next
  show "\<exists>a b. s = a @ trim s @ b \<and> (\<forall>c \<in> set a. is_space c) \<and> (\<forall>c \<in> set b. is_space c)"
    by (rule trim_frame)
next
  assume "trim s \<noteq> []"
  then show "\<not> is_space (hd (trim s))" by (rule trim_hd)
next
  assume "trim s \<noteq> []"
  then show "\<not> is_space (last (trim s))" by (rule trim_last)
next
  assume "fieldName (labelText labelCell) = Some f"
  then show "map_of (extractPair labelCell valueCell result) f = Some (resolveValue valueCell)"
    by (simp add: extractPair_def AList.update_conv')
next
  assume "row \<in> set (querySelectorAll_rows document) \<and> even i \<and>
    i + 1 < length (querySelectorAll_td row) \<and>
    hasClass ''detail-title'' (querySelectorAll_td row ! i) \<and>
    fieldName (labelText (querySelectorAll_td row ! i)) = Some f"
  then show "f \<in> fst ` set (getDetailInformation document)"
    unfolding getDetailInformation_keys contributes_def by blast
qed

text \<open>
  The sample value cell has a highlighted span inside other text: the value is the text
  of the span without the white space around it. The spaced value cell has no span: the
  value is its two words with one space between them. A cell of white space gives
  \<^verbatim>\<open>null\<close>, stored under the field of the label.
\<close>

theorem resolved_value_witness:
  "textContent sample_value = ''prefix  X  suffix'' \<and>
   resolveValue sample_value = Some ''X'' \<and>
   joinWords (splitWords (textContent spaced_value)) = ''Figurative mark'' \<and>
   resolveValue spaced_value = Some ''Figurative mark'' \<and>
   trim ''  X '' = ''X'' \<and>
   fieldName (labelText sample_label) = Some ''status'' \<and>
   map_of (extractPair sample_label (Element ''td'' [] [Text ''   '']) []) ''status'' = Some None \<and>
   ''status'' \<in> fst ` set (getDetailInformation sample_detail)"
proof -
  let ?row = "Element ''tr'' []
        [sample_label,
         Element ''td'' [] [Text ''   ''],
         Element ''td'' [''detail-title''] [Text ''Trademark type'']]"
  have name: "fieldName (labelText sample_label) = Some ''status''"
    by (simp add: sample_label_def extraction_defs)
  have raw: "textContent sample_value = ''prefix  X  suffix''"
    by (simp add: sample_value_def)
  have val: "resolveValue sample_value = Some ''X''"
    by (simp add: sample_value_def extraction_defs)
  have spaced: "resolveValue spaced_value = Some ''Figurative mark''"
    by (simp add: spaced_value_def extraction_defs)
  have nohl: "querySelector_highlight spaced_value = None"
    by (simp add: spaced_value_def extraction_defs)
  have tr: "trim ''  X '' = ''X''"
    by (simp add: trim_def is_space_def)
  have null: "resolveValue (Element ''td'' [] [Text ''   '']) = None"
    by (simp add: extraction_defs)
  have row: "?row \<in> set (querySelectorAll_rows sample_detail)"
    by (simp add: sample_detail_rows)
  have cells: "querySelectorAll_td ?row = [sample_label,
         Element ''td'' [] [Text ''   ''],
         Element ''td'' [''detail-title''] [Text ''Trademark type'']]"
    by (simp add: sample_label_def querySelectorAll_td_def descendants_def hasTag_def)
  have label: "hasClass ''detail-title'' sample_label"
    by (simp add: sample_label_def hasClass_def)
  from resolved_value[of spaced_value] spaced nohl
  have words: "joinWords (splitWords (textContent spaced_value)) = ''Figurative mark''"
    by (simp add: Let_def split: if_splits)
  note inst = resolved_value[of "Element ''td'' [] [Text ''   '']" _ sample_label "''status''" "[]"
      ?row sample_detail 0]
  from inst name have "map_of (extractPair sample_label (Element ''td'' [] [Text ''   '']) []) ''status''
      = Some (resolveValue (Element ''td'' [] [Text ''   '']))"
    by blast
  moreover from inst row cells label name
  have "''status'' \<in> fst ` set (getDetailInformation sample_detail)"
    by simp
  ultimately show ?thesis
    using name raw val spaced words tr null by simp
qed

text \<open>
  Claim C10. Every key of the record extracted from a document is one of the eight field
  names of \<^verbatim>\<open>TrademarkData\<close>, and every value is \<^verbatim>\<open>null\<close> or a string that is
  not empty. Every key comes from a cell of class \<^verbatim>\<open>detail-title\<close> at an even offset
  of the cells of some row, with a cell right after it, whose text resolves to that key.
\<close>

theorem extraction_schema:
  "(\<forall>e \<in> set (getDetailInformation document).
      fst e \<in> set TrademarkData \<and> (snd e = None \<or> (\<exists>s. snd e = Some s \<and> s \<noteq> []))) \<and>
   (\<forall>f \<in> fst ` set (getDetailInformation document).
      \<exists>row \<in> set (querySelectorAll_rows document). \<exists>i.
        even i \<and> i + 1 < length (querySelectorAll_td row) \<and>
        hasClass ''detail-title'' (querySelectorAll_td row ! i) \<and>
        fieldName (labelText (querySelectorAll_td row ! i)) = Some f)"
proof
  show "\<forall>e \<in> set (getDetailInformation document).
      fst e \<in> set TrademarkData \<and> (snd e = None \<or> (\<exists>s. snd e = Some s \<and> s \<noteq> []))"
    using getDetailInformation_wellFormed[of document]
    by (auto simp: wellFormedEntry_def split: option.splits)
next
  show "\<forall>f \<in> fst ` set (getDetailInformation document).
      \<exists>row \<in> set (querySelectorAll_rows document). \<exists>i.
        even i \<and> i + 1 < length (querySelectorAll_td row) \<and>
        hasClass ''detail-title'' (querySelectorAll_td row ! i) \<and>
        fieldName (labelText (querySelectorAll_td row ! i)) = Some f"
    unfolding getDetailInformation_keys contributes_def by blast
qed

theorem extraction_schema_witness:
  "getDetailInformation sample_detail = [(''nameTitle'', Some ''X''), (''status'', None)] \<and>
   ''nameTitle'' \<in> set TrademarkData \<and> ''status'' \<in> set TrademarkData \<and>
   (\<exists>row \<in> set (querySelectorAll_rows sample_detail). \<exists>i.
        even i \<and> i + 1 < length (querySelectorAll_td row) \<and>
        hasClass ''detail-title'' (querySelectorAll_td row ! i) \<and>
        fieldName (labelText (querySelectorAll_td row ! i)) = Some ''status'')"
proof -
  note inst = extraction_schema[of sample_detail]
  have mem: "(''nameTitle'', Some ''X'') \<in> set (getDetailInformation sample_detail)"
    "(''status'', None) \<in> set (getDetailInformation sample_detail)"
    by (simp_all add: sample_detail_record)
  from inst mem(1) have a: "''nameTitle'' \<in> set TrademarkData" by fastforce
  from inst mem(2) have b: "''status'' \<in> set TrademarkData" by fastforce
  have "''status'' \<in> fst ` set (getDetailInformation sample_detail)"
    by (simp add: sample_detail_record)
  with inst have "\<exists>row \<in> set (querySelectorAll_rows sample_detail). \<exists>i.
        even i \<and> i + 1 < length (querySelectorAll_td row) \<and>
        hasClass ''detail-title'' (querySelectorAll_td row ! i) \<and>
        fieldName (labelText (querySelectorAll_td row ! i)) = Some ''status''"
    by blast
  with a b show ?thesis by (simp add: sample_detail_record)
qed

section \<open>Form configuration and search: the claims\<close>

text \<open>
  Claim C1. When the configuration of the checkboxes completes, the input
  \<^verbatim>\<open>#attribute_date_to\<close> holds the start date of the run and the input
  \<^verbatim>\<open>#attribute_date_from\<close> holds its end date, whatever the inputs held before; and
  the texts typed during \<^verbatim>\<open>executeSearch\<close> are exactly these two, the end date into
  \<^verbatim>\<open>#attribute_date_from\<close> first, then the start date into \<^verbatim>\<open>#attribute_date_to\<close>.
\<close>

theorem dates_swapped:
  assumes "fst (configureCheckboxes w) = Inr ()"
  shows "inputs (snd (executeSearch options w)) ''#attribute_date_to'' = startDate options \<and>
     inputs (snd (executeSearch options w)) ''#attribute_date_from'' = endDate options \<and>
     filter isTypeText (drop (length (actions w)) (actions (snd (executeSearch options w)))) =
       [TypeText ''#attribute_date_from'' (endDate options),
        TypeText ''#attribute_date_to'' (startDate options)]"
proof -
  from assms have u: "\<forall>c \<in> set (checkboxes w). \<not> stuck c"
    by (simp only: configureCheckboxes_completes_iff)
  show ?thesis
    unfolding executeSearch_result[OF u]
    by (simp add: searchedWorld_def dateActions_def no_TypeText_in_boxClicks isTypeText_def)
qed

theorem dates_swapped_witness:
  "startDate sample_options = ''2024-01-01'' \<and> endDate sample_options = ''2024-12-31'' \<and>
   inputs (snd (executeSearch sample_options sample_world)) ''#attribute_date_to'' = ''2024-01-01'' \<and>
   inputs (snd (executeSearch sample_options sample_world)) ''#attribute_date_from'' = ''2024-12-31''"
proof -
  have h: "fst (configureCheckboxes sample_world) = Inr ()"
    by (simp add: configureCheckboxes_completes_iff sample_world_def stuck_def)
  from dates_swapped[OF h, of sample_options] show ?thesis
    by (simp add: sample_options_def)
qed

text \<open>
  Claim C2. When the configuration of the checkboxes completes, the outcome of
  \<^verbatim>\<open>executeSearch\<close> is decided by the response alone. With a message whose text, in lower case and
  trimmed, contains \<^verbatim>\<open>no results found\<close>, it throws the non-retryable error of that
  name; otherwise, with a message that contains \<^verbatim>\<open>too many results found\<close>, it throws
  the other non-retryable error; with any other message, and with no message but a result
  table, it returns. (With neither a message nor a table the wait of line 116 runs into
  its time limit.)
\<close>

theorem search_classification:
  assumes "fst (configureCheckboxes w) = Inr ()"
  shows "fst (executeSearch options w) =
     (case tabs_info_message w of
        Some message \<Rightarrow>
          if includes_s (trim (toLowerCase message)) ''no results found''
          then Inl (NonRetryableError ''No results found for the given criteria'')
          else if includes_s (trim (toLowerCase message)) ''too many results found''
          then Inl (NonRetryableError ''Too many results found. Please narrow your search criteria'')
          else Inr ()
      | None \<Rightarrow>
          if search_table w then Inr ()
          else Inl (TimeoutError ''page.waitForFunction: Timeout exceeded''))"
proof -
  from assms have u: "\<forall>c \<in> set (checkboxes w). \<not> stuck c"
    by (simp only: configureCheckboxes_completes_iff)
  show ?thesis
    unfolding executeSearch_result[OF u] by (simp add: searchOutcome_def)
qed

theorem search_classification_witness:
  "fst (executeSearch sample_options
         (sample_world\<lparr>tabs_info_message := Some ''No results found for your query''\<rparr>)) =
     Inl (NonRetryableError ''No results found for the given criteria'') \<and>
   fst (executeSearch sample_options
         (sample_world\<lparr>tabs_info_message := Some ''Too many results found, please narrow''\<rparr>)) =
     Inl (NonRetryableError ''Too many results found. Please narrow your search criteria'') \<and>
   fst (executeSearch sample_options
         (sample_world\<lparr>tabs_info_message := Some ''Showing 3 results''\<rparr>)) = Inr () \<and>
   fst (executeSearch sample_options sample_world) = Inr ()"
proof -
  have h: "fst (configureCheckboxes (sample_world\<lparr>tabs_info_message := m\<rparr>)) = Inr ()" for m
    by (simp add: configureCheckboxes_completes_iff sample_world_def stuck_def)
  have h0: "fst (configureCheckboxes sample_world) = Inr ()"
    by (simp add: configureCheckboxes_completes_iff sample_world_def stuck_def)
  from search_classification[OF h, of sample_options "Some ''No results found for your query''"]
  have a: "fst (executeSearch sample_options
         (sample_world\<lparr>tabs_info_message := Some ''No results found for your query''\<rparr>)) =
     Inl (NonRetryableError ''No results found for the given criteria'')"
    by (simp add: lower_defs)
  from search_classification[OF h, of sample_options "Some ''Too many results found, please narrow''"]
  have b: "fst (executeSearch sample_options
         (sample_world\<lparr>tabs_info_message := Some ''Too many results found, please narrow''\<rparr>)) =
     Inl (NonRetryableError ''Too many results found. Please narrow your search criteria'')"
    by (simp add: lower_defs)
  from search_classification[OF h, of sample_options "Some ''Showing 3 results''"]
  have c: "fst (executeSearch sample_options
         (sample_world\<lparr>tabs_info_message := Some ''Showing 3 results''\<rparr>)) = Inr ()"
    by (simp add: lower_defs)
  from search_classification[OF h0, of sample_options]
  have d: "fst (executeSearch sample_options sample_world) = Inr ()"
    by (simp add: sample_world_def)
  from a b c d show ?thesis by simp
qed

text \<open>
  Claim C8, as amended. When the configuration of the form has completed, every checkbox
  that has an identifier is checked exactly when its identifier is in the allow-list, and
  a checkbox without an identifier (the guard of line 66) has kept its state; the
  identifiers and the number of checkboxes are as before; and the box of a checkbox has
  been clicked exactly when the checkbox has an identifier and its state differed from
  the target.
\<close>

theorem checkboxes_reach_target:
  assumes "fst (configureCheckboxes w) = Inr ()"
  shows "length (checkboxes (snd (configureCheckboxes w))) = length (checkboxes w) \<and>
     (\<forall>k<length (checkboxes w).
        cb_id (checkboxes (snd (configureCheckboxes w)) ! k) = cb_id (checkboxes w ! k) \<and>
        (\<not> falsy (cb_id (checkboxes w ! k)) \<longrightarrow>
           cb_checked (checkboxes (snd (configureCheckboxes w)) ! k) =
             (the (cb_id (checkboxes w ! k)) \<in> set targetCheckboxes)) \<and>
        (falsy (cb_id (checkboxes w ! k)) \<longrightarrow>
           cb_checked (checkboxes (snd (configureCheckboxes w)) ! k) =
             cb_checked (checkboxes w ! k)) \<and>
        (ClickBox k \<in> set (drop (length (actions w)) (actions (snd (configureCheckboxes w)))) \<longleftrightarrow>
           \<not> falsy (cb_id (checkboxes w ! k)) \<and>
           cb_checked (checkboxes w ! k) \<noteq> (the (cb_id (checkboxes w ! k)) \<in> set targetCheckboxes)))"
proof
  from assms have u: "\<forall>c \<in> set (checkboxes w). \<not> stuck c"
    by (simp only: configureCheckboxes_completes_iff)
  note r = configureCheckboxes_result[OF u]
  show "length (checkboxes (snd (configureCheckboxes w))) = length (checkboxes w)"
    unfolding r by simp
  show "\<forall>k<length (checkboxes w).
        cb_id (checkboxes (snd (configureCheckboxes w)) ! k) = cb_id (checkboxes w ! k) \<and>
        (\<not> falsy (cb_id (checkboxes w ! k)) \<longrightarrow>
           cb_checked (checkboxes (snd (configureCheckboxes w)) ! k) =
             (the (cb_id (checkboxes w ! k)) \<in> set targetCheckboxes)) \<and>
        (falsy (cb_id (checkboxes w ! k)) \<longrightarrow>
           cb_checked (checkboxes (snd (configureCheckboxes w)) ! k) =
             cb_checked (checkboxes w ! k)) \<and>
        (ClickBox k \<in> set (drop (length (actions w)) (actions (snd (configureCheckboxes w)))) \<longleftrightarrow>
           \<not> falsy (cb_id (checkboxes w ! k)) \<and>
           cb_checked (checkboxes w ! k) \<noteq> (the (cb_id (checkboxes w ! k)) \<in> set targetCheckboxes))"
    unfolding r
    by (simp add: ClickBox_in_boxClicks configured_props toggled_def shouldBeChecked_def)
qed

text \<open>
  On the sample form the configuration completes. The first checkbox (on the allow-list,
  unchecked) and the fifth (the same) end up checked after a click, the second (not on
  the list, checked) ends up unchecked after a click, the third (on the list, checked) and
  the fourth (no identifier, checked) are left alone.
\<close>

theorem checkboxes_reach_target_witness:
  "map cb_checked (checkboxes sample_world) = [False, True, True, True, False] \<and>
   fst (configureCheckboxes sample_world) = Inr () \<and>
   cb_checked (checkboxes (snd (configureCheckboxes sample_world)) ! 0) \<and>
   \<not> cb_checked (checkboxes (snd (configureCheckboxes sample_world)) ! 1) \<and>
   cb_checked (checkboxes (snd (configureCheckboxes sample_world)) ! 2) \<and>
   cb_checked (checkboxes (snd (configureCheckboxes sample_world)) ! 3) \<and>
   cb_checked (checkboxes (snd (configureCheckboxes sample_world)) ! 4) \<and>
   ClickBox 0 \<in> set (actions (snd (configureCheckboxes sample_world))) \<and>
   ClickBox 1 \<in> set (actions (snd (configureCheckboxes sample_world))) \<and>
   ClickBox 2 \<notin> set (actions (snd (configureCheckboxes sample_world))) \<and>
   ClickBox 3 \<notin> set (actions (snd (configureCheckboxes sample_world))) \<and>
   ClickBox 4 \<in> set (actions (snd (configureCheckboxes sample_world)))"
proof -
  have h: "fst (configureCheckboxes sample_world) = Inr ()"
    by (simp add: configureCheckboxes_completes_iff sample_world_def stuck_def)
  have cbs: "checkboxes sample_world =
        [\<lparr>cb_id = Some ''pwp_criteria_0'', cb_checked = False, cb_proxy = True\<rparr>,
         \<lparr>cb_id = Some ''collections_criteria_advanced_3'', cb_checked = True, cb_proxy = True\<rparr>,
         \<lparr>cb_id = Some ''collections_criteria_advanced_7'', cb_checked = True, cb_proxy = True\<rparr>,
         \<lparr>cb_id = None, cb_checked = True, cb_proxy = True\<rparr>,
         \<lparr>cb_id = Some ''collections_criteria_advanced_7_child_attrs_0'', cb_checked = False,
          cb_proxy = True\<rparr>]"
    "actions sample_world = []"
    by (simp_all add: sample_world_def)
  from checkboxes_reach_target[OF h]
  have inst: "\<forall>k<length (checkboxes sample_world).
        cb_id (checkboxes (snd (configureCheckboxes sample_world)) ! k) =
          cb_id (checkboxes sample_world ! k) \<and>
        (\<not> falsy (cb_id (checkboxes sample_world ! k)) \<longrightarrow>
           cb_checked (checkboxes (snd (configureCheckboxes sample_world)) ! k) =
             (the (cb_id (checkboxes sample_world ! k)) \<in> set targetCheckboxes)) \<and>
        (falsy (cb_id (checkboxes sample_world ! k)) \<longrightarrow>
           cb_checked (checkboxes (snd (configureCheckboxes sample_world)) ! k) =
             cb_checked (checkboxes sample_world ! k)) \<and>
        (ClickBox k \<in> set (drop (length (actions sample_world))
                               (actions (snd (configureCheckboxes sample_world)))) \<longleftrightarrow>
           \<not> falsy (cb_id (checkboxes sample_world ! k)) \<and>
           cb_checked (checkboxes sample_world ! k) \<noteq>
             (the (cb_id (checkboxes sample_world ! k)) \<in> set targetCheckboxes))"
    by blast
  from inst have k0: "cb_checked (checkboxes (snd (configureCheckboxes sample_world)) ! 0)"
    "ClickBox 0 \<in> set (actions (snd (configureCheckboxes sample_world)))"
    by (simp_all add: cbs falsy_def targetCheckboxes_def)
  from inst have k1: "\<not> cb_checked (checkboxes (snd (configureCheckboxes sample_world)) ! 1)"
    "ClickBox 1 \<in> set (actions (snd (configureCheckboxes sample_world)))"
    by (simp_all add: cbs falsy_def targetCheckboxes_def)
  from inst have k2: "cb_checked (checkboxes (snd (configureCheckboxes sample_world)) ! 2)"
    "ClickBox 2 \<notin> set (actions (snd (configureCheckboxes sample_world)))"
    by (simp_all add: cbs falsy_def targetCheckboxes_def)
  from inst have k3: "cb_checked (checkboxes (snd (configureCheckboxes sample_world)) ! 3)"
    "ClickBox 3 \<notin> set (actions (snd (configureCheckboxes sample_world)))"
    by (simp_all add: cbs falsy_def targetCheckboxes_def)
  from inst have k4: "cb_checked (checkboxes (snd (configureCheckboxes sample_world)) ! 4)"
    "ClickBox 4 \<in> set (actions (snd (configureCheckboxes sample_world)))"
    by (simp_all add: cbs falsy_def targetCheckboxes_def)
  from h k0 k1 k2 k3 k4 show ?thesis by (simp add: cbs)
qed

text \<open>
  Claim C8 as the specification states it fails: on a form whose only checkbox has no
  identifier and is checked, the configuration completes and the checkbox is still
  checked, although it is not on the allow-list.
\<close>

theorem checkbox_without_id_counterexample:
  "fst (configureCheckboxes
      (sample_world\<lparr>checkboxes := [\<lparr>cb_id = None, cb_checked = True, cb_proxy = True\<rparr>]\<rparr>)) = Inr () \<and>
   \<not> allowListReached (checkboxes (snd (configureCheckboxes
      (sample_world\<lparr>checkboxes := [\<lparr>cb_id = None, cb_checked = True, cb_proxy = True\<rparr>]\<rparr>))))"
  by (simp add: configureCheckboxes_def configureCheckbox_def falsy_def allowListReached_def)

text \<open>
  The checkbox whose proxy is not in the page. The handle that \<^verbatim>\<open>evaluateHandle\<close>
  resolves to is truthy all the same, the guard of line 78 lets it through, and the call
  of \<^verbatim>\<open>box.click\<close> throws: the configuration ends with a \<^verbatim>\<open>TypeError\<close> on the
  first such checkbox that has to change, and it completes exactly when there is none.
\<close>

lemma missing_proxy_throws:
  "fst (configureCheckboxes
      (sample_world\<lparr>checkboxes :=
         [\<lparr>cb_id = Some ''pwp_criteria_0'', cb_checked = False, cb_proxy = False\<rparr>]\<rparr>)) =
   Inl (TypeError ''box.click is not a function'')"
  by (simp add: configureCheckboxes_def configureCheckbox_def falsy_def targetCheckboxes_def
        evaluateHandle_def truthy_def throw_def)

lemma configuration_completes_iff:
  "fst (configureCheckboxes w) = Inr () \<longleftrightarrow>
     (\<forall>c \<in> set (checkboxes w).
        \<not> falsy (cb_id c) \<and> cb_checked c \<noteq> (the (cb_id c) \<in> set targetCheckboxes) \<longrightarrow>
        cb_proxy c)"
  by (auto simp: configureCheckboxes_completes_iff stuck_def toggled_def shouldBeChecked_def)

section \<open>The date check and the handlers: the claims\<close>

lemma checkDateRange_cases:
  assumes "\<forall>dateStr formatStr r r'. parse dateStr formatStr r = parse dateStr formatStr r'"
  shows "checkDateRange parse now options =
     (case (parse (startDate options) ''yyyy-MM-dd'' 0, parse (endDate options) ''yyyy-MM-dd'' 0) of
        (Some a, Some b) \<Rightarrow>
          if a \<le> b then Inr ()
          else Inl (Error ''Start date must be before or equal to end date.'')
      | _ \<Rightarrow> Inl (Error ''Invalid date format. Use YYYY-MM-DD.''))"
proof -
  have r: "parse dateStr formatStr r = parse dateStr formatStr 0" for dateStr formatStr r
    using assms by blast
  show ?thesis
    unfolding checkDateRange_def isValidDate_def Let_def
      r[of _ _ "now 0"] r[of _ _ "now 1"] r[of _ _ "now 2"] r[of _ _ "now 3"]
    by (auto simp: date_gt_def split: option.splits)
qed

lemma checkDateRange_error_ends_crawl:
  "checkDateRange parse now options = Inl e \<Longrightarrow> crawl run parse now options w = Some (Inl e, w)"
  by (simp add: crawl_def)

text \<open>
  Claim C3 does not hold of the code. The string \<^verbatim>\<open>2024-1-5\<close> is not of the shape
  \<^verbatim>\<open>YYYY-MM-DD\<close>: the pattern of \<^verbatim>\<open>parseArgs\<close> rejects it. The date check has no test
  of the shape; it asks the parser of the date library, and whenever that parser reads
  the string as a date (it reads a month and a day of one digit) and the date is not
  after the end date, the check returns without throwing.
\<close>

theorem malformed_date_accepted:
  assumes "\<forall>r. parse ''2024-1-5'' ''yyyy-MM-dd'' r = Some a"
    and "\<forall>r. parse ''2024-12-31'' ''yyyy-MM-dd'' r = Some b"
    and "a \<le> b"
  shows "\<not> dateRegex_test ''2024-1-5'' \<and>
     checkDateRange parse now
       \<lparr>startDate = ''2024-1-5'', endDate = ''2024-12-31'', outputFile = out\<rparr> = Inr ()"
  using assms
  by (simp add: dateRegex_test_def checkDateRange_def isValidDate_def date_gt_def Let_def)

theorem malformed_date_accepted_witness:
  "\<not> dateRegex_test ''2024-1-5'' \<and> dateRegex_test ''2024-12-31'' \<and>
   checkDateRange sample_parse int
     \<lparr>startDate = ''2024-1-5'', endDate = ''2024-12-31'', outputFile = None\<rparr> = Inr ()"
proof -
  have a: "\<forall>r. sample_parse ''2024-1-5'' ''yyyy-MM-dd'' r = Some 1704412800000"
    and b: "\<forall>r. sample_parse ''2024-12-31'' ''yyyy-MM-dd'' r = Some 1735603200000"
    by (simp_all add: sample_parse_def)
  have c: "(1704412800000::int) \<le> 1735603200000" by simp
  have d: "dateRegex_test ''2024-12-31''"
    by (simp add: dateRegex_test_def isDigit_def)
  from malformed_date_accepted[where parse = sample_parse and now = int and out = None, OF a b c] d
  show ?thesis by simp
qed

text \<open>
  Claim C6, as amended. The detail handler looks at the number of fields of the record,
  not at their values. When the page of a detail job renders and the extraction yields
  a record without any field, the handler leaves the results as they are and logs the
  warning after the line on the job; it returns, and the jobs after it are handled as
  if the job had not been there. When the record has a field, also when every value is
  \<^verbatim>\<open>null\<close>, the handler appends the record to the results and logs it.
\<close>

theorem empty_record_skipped:
  assumes "detail_pages w url = Inr document"
  shows "(getDetailInformation document = [] \<longrightarrow>
        results (detailHandler url w) = results w \<and>
        log (detailHandler url w) = log w @ [ProcessingDetail url, NoDataExtracted url] \<and>
        results (detailJobs (url # urls) w) = results (detailJobs urls w)) \<and>
     (getDetailInformation document \<noteq> [] \<longrightarrow>
        results (detailHandler url w) = results w @ [getDetailInformation document] \<and>
        log (detailHandler url w) =
          log w @ [ProcessingDetail url, ExtractedData url (getDetailInformation document)])"
proof (intro conjI impI)
  assume e: "getDetailInformation document = []"
  with assms have x: "extractedFrom (detail_pages w) url = []"
    by (simp add: extractedFrom_def)
  show "results (detailHandler url w) = results w"
    by (simp add: detailHandler_results x)
  show "log (detailHandler url w) = log w @ [ProcessingDetail url, NoDataExtracted url]"
    using assms e by (simp add: detailHandler_def Let_def act_def logEntry_def)
  show "results (detailJobs (url # urls) w) = results (detailJobs urls w)"
    by (simp add: detailJobs_results x)
next
  assume n: "getDetailInformation document \<noteq> []"
  with assms have x: "extractedFrom (detail_pages w) url = [getDetailInformation document]"
    by (simp add: extractedFrom_def)
  show "results (detailHandler url w) = results w @ [getDetailInformation document]"
    by (simp add: detailHandler_results x)
  show "log (detailHandler url w) =
      log w @ [ProcessingDetail url, ExtractedData url (getDetailInformation document)]"
    using assms n by (simp add: detailHandler_def Let_def act_def logEntry_def)
qed

text \<open>
  On the sample run the page of \<^verbatim>\<open>/detail/2\<close> has no detail table: its record has no
  field, it is skipped with the warning, and the job after it is handled. The page of
  \<^verbatim>\<open>/detail/1\<close> yields a record of two fields, which is appended.
\<close>

theorem empty_record_skipped_witness:
  "detail_pages sample_world ''/detail/2'' = Inr (Element ''html'' [] []) \<and>
   getDetailInformation (Element ''html'' [] []) = [] \<and>
   results (detailHandler ''/detail/2'' sample_world) = [] \<and>
   log (detailHandler ''/detail/2'' sample_world) =
     [ProcessingDetail ''/detail/2'', NoDataExtracted ''/detail/2''] \<and>
   results (detailJobs [''/detail/2'', ''/detail/1''] sample_world) =
     [[(''nameTitle'', Some ''X''), (''status'', None)]] \<and>
   detail_pages sample_world ''/detail/1'' = Inr sample_detail \<and>
   results (detailHandler ''/detail/1'' sample_world) =
     [[(''nameTitle'', Some ''X''), (''status'', None)]]"
proof -
  have a: "detail_pages sample_world ''/detail/2'' = Inr (Element ''html'' [] [])"
    "detail_pages sample_world ''/detail/1'' = Inr sample_detail"
    by (simp_all add: sample_world_def)
  have b: "getDetailInformation (Element ''html'' [] []) = []"
    by (simp add: getDetailInformation_def querySelectorAll_rows_def)
  have c: "results (detailJobs [''/detail/1''] sample_world) =
      [[(''nameTitle'', Some ''X''), (''status'', None)]]"
    by (simp add: detailJobs_results extractedFrom_def sample_world_def sample_detail_record)
  have l: "log sample_world = []" "results sample_world = []"
    by (simp_all add: sample_world_def)
  from empty_record_skipped[OF a(1), of "[''/detail/1'']"] b c l
  have one: "results (detailHandler ''/detail/2'' sample_world) = [] \<and>
     log (detailHandler ''/detail/2'' sample_world) =
       [ProcessingDetail ''/detail/2'', NoDataExtracted ''/detail/2''] \<and>
     results (detailJobs [''/detail/2'', ''/detail/1''] sample_world) =
       [[(''nameTitle'', Some ''X''), (''status'', None)]]"
    by simp
  from empty_record_skipped[OF a(2), of "[]"] l
  have two: "results (detailHandler ''/detail/1'' sample_world) =
     [[(''nameTitle'', Some ''X''), (''status'', None)]]"
    by (simp add: sample_detail_record)
  from a b one two show ?thesis by simp
qed

text \<open>
  Claim C6 as the specification states it fails: the record of the blank detail page has
  one field and no populated field, the value of \<^verbatim>\<open>status\<close> being \<^verbatim>\<open>null\<close>; the handler
  appends it to the results and logs the record, not the warning.
\<close>

theorem null_record_appended_counterexample:
  "detail_pages blank_world ''/detail/5'' = Inr blank_detail \<and>
   getDetailInformation blank_detail = [(''status'', None)] \<and>
   populated (getDetailInformation blank_detail) = [] \<and>
   results (detailHandler ''/detail/5'' blank_world) = [[(''status'', None)]] \<and>
   log (detailHandler ''/detail/5'' blank_world) =
     [ProcessingDetail ''/detail/5'', ExtractedData ''/detail/5'' [(''status'', None)]]"
  by (simp add: blank_world_def sample_world_def blank_detail_record populated_def
        detailHandler_def Let_def act_def logEntry_def)

text \<open>
  Claim C7. When the pages from the current one on show an enabled next control on the
  first \<open>N - 1\<close> and none (a missing or a disabled control) on the \<open>N\<close>-th, the loop
  returns: the links of exactly these \<open>N\<close> pages have joined the queue in order, and the
  commands sent are, for each of the first \<open>N - 1\<close> pages, the enqueueing, the click on
  the next control and the pause of 1500 ms, and for the last page the enqueueing alone.
\<close>

theorem pagination_walks_pages:
  assumes "0 < N"
    and "\<forall>k<N - 1. next_control (pages w (current w + k)) = Some False"
    and "next_control (pages w (current w + (N - 1))) \<noteq> Some False"
  shows "\<exists>w'. paginate w = Some w' \<and>
     queue w' = queue w @ concat (map (\<lambda>k. row_links (pages w k)) [current w..<current w + N]) \<and>
     actions w' = actions w @
       concat (map (\<lambda>k. [EnqueueLinks k, ClickNext, WaitForTimeout 1500])
                 [current w..<current w + (N - 1)]) @
       [EnqueueLinks (current w + (N - 1))] \<and>
     current w' = current w + (N - 1)"
proof -
  from assms(1) have N: "N - 1 + 1 = N" by simp
  from paginate_pages[OF assms(2,3)]
  have "paginate w = Some (pagedWorld w (N - 1))" .
  moreover have "queue (pagedWorld w (N - 1)) =
      queue w @ concat (map (\<lambda>k. row_links (pages w k)) [current w..<current w + N])"
    using linksFrom_upt[of "pages w" "current w" "N - 1"] N
    by (simp add: pagedWorld_def del: upt_Suc)
  moreover have "actions (pagedWorld w (N - 1)) = actions w @
       concat (map (\<lambda>k. [EnqueueLinks k, ClickNext, WaitForTimeout 1500])
                 [current w..<current w + (N - 1)]) @
       [EnqueueLinks (current w + (N - 1))]"
    by (simp add: pagedWorld_def walkFrom_upt)
  moreover have "current (pagedWorld w (N - 1)) = current w + (N - 1)"
    by (simp add: pagedWorld_def)
  ultimately show ?thesis by blast
qed

theorem pagination_walks_pages_witness:
  "\<exists>w'. paginate sample_world = Some w' \<and>
     queue w' = [''/detail/1'', ''/detail/2'', ''/detail/3'', ''/detail/4''] \<and>
     actions w' =
       [EnqueueLinks 0, ClickNext, WaitForTimeout 1500,
        EnqueueLinks 1, ClickNext, WaitForTimeout 1500,
        EnqueueLinks 2] \<and>
     current w' = 2"
proof -
  have f: "pages sample_world = sample_pages" "current sample_world = 0"
    "queue sample_world = []" "actions sample_world = []"
    by (simp_all add: sample_world_def)
  have a: "(0::nat) < 3" by simp
  have b: "\<forall>k<3 - 1. next_control (pages sample_world (current sample_world + k)) = Some False"
    by (simp add: f sample_pages_def)
  have c: "next_control (pages sample_world (current sample_world + (3 - 1))) \<noteq> Some False"
    by (simp add: f sample_pages_def)
  have u: "[0..<3] = [0, 1, 2]" "[0..<2] = [0, 1]"
    by (simp_all add: upt_conv_Cons)
  from pagination_walks_pages[OF a b c] show ?thesis
    by (simp add: f u sample_pages_def numeral_2_eq_2)
qed

end
